theory Spec2Isabelle
  imports Complex_Main "HOL-Library.AList" "HOL-Library.Log_Nat"
begin

section \<open>OPi.GPIO: the data model\<close>

text \<open>
  The module \<^verbatim>\<open>OPi/GPIO.py\<close> keeps three module-level variables (\<^verbatim>\<open>_gpio_warnings\<close>,
  \<^verbatim>\<open>_mode\<close>, \<^verbatim>\<open>_exports\<close>) and talks to the hardware through the modules
  \<^verbatim>\<open>OPi.sysfs\<close>, \<^verbatim>\<open>OPi.event\<close> and \<^verbatim>\<open>OPi.pin_mappings\<close>. Those three modules are
  collaborators: every call into them is an explicit \<open>io_call\<close> whose outcome is decided by
  a device function taken as a parameter, and the pin table is a parameter too.
  Python semantics is that of Python 3 (true division, \<^verbatim>\<open>round\<close> to even, dictionaries in
  insertion order).
\<close>

text \<open>
  A frequency or a percentage is a Python \<^verbatim>\<open>int\<close> or \<^verbatim>\<open>float\<close>. An \<^verbatim>\<open>int\<close> is unbounded.
  A \<^verbatim>\<open>float\<close> is an IEEE 754 binary64 value: \<open>PyFloat r\<close> is the finite double whose exact
  value is the rational \<open>r\<close>, and the three others are the infinities and NaN. The two
  zeros \<^verbatim>\<open>0.0\<close> and \<^verbatim>\<open>-0.0\<close> are both \<open>PyFloat 0\<close>: the code modelled here cannot tell them
  apart (a division by either raises, each compares equal to 0 and converts to the
  \<^verbatim>\<open>int\<close> 0).
\<close>

datatype pynum = PyInt int | PyFloat rat | PyInf | PyNegInf | PyNaN

datatype direction = IN | OUT

datatype level = LOW | HIGH

datatype trigger = NONE | RISING | FALLING | BOTH

datatype mode = BCM | BOARD | SUNXI | CUSTOM

text \<open>A channel is whatever the numbering scheme uses as a key: a number or a pin name.\<close>

datatype channel = ChanInt int | ChanStr string

text \<open>
  The functions that accept "a channel or a list of channels" test
  \<^verbatim>\<open>isinstance(channel, list)\<close> and recurse on the members, so a member can be a list again.
\<close>

datatype chan_arg = Chan channel | ChanList "chan_arg list"

text \<open>A user callback is opaque; \<^verbatim>\<open>__wrap\<close> closes it over the channel.\<close>

type_synonym callback = nat

text \<open>Calls into \<^verbatim>\<open>OPi.sysfs\<close> and \<^verbatim>\<open>OPi.event\<close>, with their arguments.\<close>

datatype io_call =
    sysfs_export int
  | sysfs_unexport int
  | sysfs_direction int direction
  | sysfs_output int level
  | sysfs_PWM_Export int int
  | sysfs_PWM_Unexport int int
  | sysfs_PWM_Polarity int int bool
  | sysfs_PWM_Enable int int
  | sysfs_PWM_Frequency int int pynum
  | sysfs_PWM_Period int int int
  | sysfs_PWM_Duty_Cycle int int int
  | sysfs_PWM_Duty_Cycle_Percent int int pynum
  | event_add_edge_detect int trigger "(callback \<times> channel) option"
  | event_add_edge_callback int "(callback \<times> channel) option"
  | event_cleanup int

text \<open>What a collaborator can raise: an \<^verbatim>\<open>OSError\<close> with its errno, or anything else.\<close>

datatype ext_exception = OSError int | OtherException string

text \<open>The exceptions that leave the module.\<close>

datatype error =
    Mode_has_not_been_set
  | Channel_is_already_configured channel
  | Channel_is_not_configured channel
  | Channel_is_configured_for channel direction
  | Duty_cycle_out_of_bounds pynum
  | ZeroDivisionError
  | OverflowError
  | ValueError
  | Raised ext_exception

text \<open>The texts passed to \<^verbatim>\<open>warnings.warn\<close>.\<close>

datatype warning =
    Pull_up_down_not_supported
  | Channel_already_in_use channel
  | Bouncetime_not_supported
  | Pin_already_in_use int

text \<open>
  What the module did to the outside, in order: the calls it issued, each with what came
  back (\<open>None\<close> when the call returned, \<open>Some e\<close> when it raised \<open>e\<close>), and the warnings
  it emitted.
\<close>

datatype effect = Call io_call "ext_exception option" | Warn warning

record 'd world =
  gpio_warnings :: bool
  mode :: "mode option"
  exports :: "(channel \<times> direction) list"
  trace :: "effect list"
  device :: 'd

type_synonym 'd io = "'d \<Rightarrow> io_call \<Rightarrow> ext_exception option \<times> 'd"

type_synonym pin_table = "mode option \<Rightarrow> channel \<Rightarrow> ext_exception + int"

text \<open>
  One call into a collaborator: the device answers, the call and the answer are appended
  to the trace, and an exception of the collaborator comes back as \<open>Some\<close>.
\<close>

definition call :: "'d io \<Rightarrow> io_call \<Rightarrow> 'd world \<Rightarrow> ext_exception option \<times> 'd world" where
  "call io c w =
     (case io (device w) c of
        (r, d') \<Rightarrow> (r, w\<lparr>trace := trace w @ [Call c r], device := d'\<rparr>))"

definition warn :: "warning \<Rightarrow> 'd world \<Rightarrow> 'd world" where
  "warn m w = w\<lparr>trace := trace w @ [Warn m]\<rparr>"

section \<open>Python's arithmetic on int and float\<close>

text \<open>\<open>pow2 e\<close> is 2 to the power \<open>e\<close>, for a positive or negative \<open>e\<close>.\<close>

definition pow2 :: "int \<Rightarrow> rat" where
  "pow2 e = (if 0 \<le> e then 2 ^ nat e else 1 / 2 ^ nat (- e))"

text \<open>
  For \<open>x > 0\<close>, \<open>ilog2 x\<close> is the exponent \<open>k\<close> with \<open>2^k \<le> x < 2^(k+1)\<close>; \<open>bitlen n\<close> is the
  number of binary digits of \<open>n\<close>.
\<close>

definition ilog2 :: "rat \<Rightarrow> int" where
  "ilog2 x = (if 1 \<le> x then bitlen \<lfloor>x\<rfloor> - 1 else - bitlen (\<lceil>1 / x\<rceil> - 1))"

text \<open>Rounding to the nearest integer, a half to the even neighbour.\<close>

definition round_half_even :: "rat \<Rightarrow> int" where
  "round_half_even x =
     (let f = \<lfloor>x\<rfloor>; r = x - of_int f
      in if r < 1 / 2 then f
         else if 1 / 2 < r then f + 1
         else if even f then f else f + 1)"

text \<open>
  The result of a binary64 operation is its exact result rounded to the nearest double, a
  tie to the even significand. A double is a multiple of \<open>2^e\<close> with a significand of at most
  53 bits and \<open>e \<ge> -1074\<close> (below \<open>2^-1022\<close> the doubles are subnormal and the spacing stays
  \<open>2^-1074\<close>). \<open>nearest_double\<close> does not bound the exponent from above; \<open>fl\<close> does: a
  rounded value of \<open>2^1024\<close> or more in magnitude is an infinity.
\<close>

definition nearest_double :: "rat \<Rightarrow> rat" where
  "nearest_double x =
     (if x = 0 then 0
      else let e = max (ilog2 \<bar>x\<bar> - 52) (- 1074)
           in sgn x * of_int (round_half_even (\<bar>x\<bar> / pow2 e)) * pow2 e)"

definition fl :: "rat \<Rightarrow> pynum" where
  "fl x =
     (let r = nearest_double x
      in if 1024 \<le> ilog2 \<bar>r\<bar> then (if 0 < r then PyInf else PyNegInf)
         else PyFloat r)"

text \<open>
  \<^verbatim>\<open>int\<close> to \<^verbatim>\<open>float\<close>, as the mixed operations do it: correctly rounded, and
  \<^verbatim>\<open>OverflowError\<close> for an \<^verbatim>\<open>int\<close> too large for a double.
\<close>

fun to_float :: "pynum \<Rightarrow> error + pynum" where
  "to_float (PyInt n) =
     (case fl (of_int n) of PyFloat r \<Rightarrow> Inr (PyFloat r) | _ \<Rightarrow> Inl OverflowError)"
| "to_float x = Inr x"

text \<open>
  \<^verbatim>\<open>float / float\<close>: a zero divisor raises, whatever the dividend; NaN propagates; the
  infinities follow IEEE 754; an overflow of the quotient is an infinity.
\<close>

fun float_div :: "pynum \<Rightarrow> pynum \<Rightarrow> error + pynum" where
  "float_div a (PyFloat y) =
     (if y = 0 then Inl ZeroDivisionError
      else case a of
             PyFloat x \<Rightarrow> Inr (fl (x / y))
           | PyInf \<Rightarrow> Inr (if 0 < y then PyInf else PyNegInf)
           | PyNegInf \<Rightarrow> Inr (if 0 < y then PyNegInf else PyInf)
           | _ \<Rightarrow> Inr PyNaN)"
| "float_div (PyFloat x) PyInf = Inr (PyFloat 0)"
| "float_div (PyFloat x) PyNegInf = Inr (PyFloat 0)"
| "float_div a b = Inr PyNaN"

text \<open>\<^verbatim>\<open>float * float\<close>: no exception; infinity times zero is NaN.\<close>

fun float_mul :: "pynum \<Rightarrow> pynum \<Rightarrow> pynum" where
  "float_mul (PyFloat x) (PyFloat y) = fl (x * y)"
| "float_mul PyNaN b = PyNaN"
| "float_mul a PyNaN = PyNaN"
| "float_mul (PyFloat x) b =
     (if x = 0 then PyNaN else if (0 < x) = (b = PyInf) then PyInf else PyNegInf)"
| "float_mul a (PyFloat y) =
     (if y = 0 then PyNaN else if (0 < y) = (a = PyInf) then PyInf else PyNegInf)"
| "float_mul a b = (if a = b then PyInf else PyNegInf)"

text \<open>
  The operator \<^verbatim>\<open>/\<close>. On two \<^verbatim>\<open>int\<close>s the exact quotient is rounded once, and a quotient
  too large for a double raises \<^verbatim>\<open>OverflowError\<close>. Otherwise both operands become floats.
\<close>

definition py_truediv :: "pynum \<Rightarrow> pynum \<Rightarrow> error + pynum" where
  "py_truediv a b =
     (case (a, b) of
        (PyInt m, PyInt n) \<Rightarrow>
          if n = 0 then Inl ZeroDivisionError
          else (case fl (of_int m / of_int n) of
                  PyFloat r \<Rightarrow> Inr (PyFloat r)
                | _ \<Rightarrow> Inl OverflowError)
      | _ \<Rightarrow>
          (case to_float a of
             Inl e \<Rightarrow> Inl e
           | Inr x \<Rightarrow>
               (case to_float b of
                  Inl e \<Rightarrow> Inl e
                | Inr y \<Rightarrow> float_div x y)))"

text \<open>The operator \<^verbatim>\<open>*\<close>.\<close>

definition py_mul :: "pynum \<Rightarrow> pynum \<Rightarrow> error + pynum" where
  "py_mul a b =
     (case (a, b) of
        (PyInt m, PyInt n) \<Rightarrow> Inr (PyInt (m * n))
      | _ \<Rightarrow>
          (case to_float a of
             Inl e \<Rightarrow> Inl e
           | Inr x \<Rightarrow>
               (case to_float b of
                  Inl e \<Rightarrow> Inl e
                | Inr y \<Rightarrow> Inr (float_mul x y))))"

text \<open>\<^verbatim>\<open>round(x, 0)\<close>: a float stays a float; an infinity or NaN is returned as it is.\<close>

fun py_round0 :: "pynum \<Rightarrow> pynum" where
  "py_round0 (PyFloat x) = PyFloat (of_int (round_half_even x))"
| "py_round0 x = x"

text \<open>\<^verbatim>\<open>int(x)\<close>: truncation; \<^verbatim>\<open>OverflowError\<close> on an infinity, \<^verbatim>\<open>ValueError\<close> on NaN.\<close>

fun py_int :: "pynum \<Rightarrow> error + int" where
  "py_int (PyInt n) = Inr n"
| "py_int (PyFloat x) = Inr (if 0 \<le> x then \<lfloor>x\<rfloor> else \<lceil>x\<rceil>)"
| "py_int PyNaN = Inl ValueError"
| "py_int x = Inl OverflowError"

text \<open>
  The comparisons \<^verbatim>\<open><=\<close> and \<^verbatim>\<open><\<close>: exact between \<^verbatim>\<open>int\<close> and \<^verbatim>\<open>float\<close>, and false as
  soon as one side is NaN.
\<close>

fun py_le :: "pynum \<Rightarrow> pynum \<Rightarrow> bool" where
  "py_le PyNaN b = False"
| "py_le a PyNaN = False"
| "py_le PyNegInf b = True"
| "py_le a PyInf = True"
| "py_le PyInf b = False"
| "py_le a PyNegInf = False"
| "py_le (PyInt m) (PyInt n) = (m \<le> n)"
| "py_le (PyInt m) (PyFloat y) = (of_int m \<le> y)"
| "py_le (PyFloat x) (PyInt n) = (x \<le> of_int n)"
| "py_le (PyFloat x) (PyFloat y) = (x \<le> y)"

fun py_lt :: "pynum \<Rightarrow> pynum \<Rightarrow> bool" where
  "py_lt PyNaN b = False"
| "py_lt a PyNaN = False"
| "py_lt PyInf b = False"
| "py_lt a PyNegInf = False"
| "py_lt PyNegInf b = True"
| "py_lt a PyInf = True"
| "py_lt (PyInt m) (PyInt n) = (m < n)"
| "py_lt (PyInt m) (PyFloat y) = (of_int m < y)"
| "py_lt (PyFloat x) (PyInt n) = (x < of_int n)"
| "py_lt (PyFloat x) (PyFloat y) = (x < y)"

section \<open>The PWM class\<close>

record pwm =
  chip :: int
  pin :: int
  frequency :: pynum
  duty_cycle_percent :: pynum
  invert_polarity :: bool

text \<open>
  \<^verbatim>\<open>int(round((1 / frequency) * 1e9, 0))\<close>, the two lines 834 and 835 and line 839 of
  \<^verbatim>\<open>PWM.change_frequency\<close>. The division raises \<^verbatim>\<open>ZeroDivisionError\<close> on a zero; \<^verbatim>\<open>int\<close>
  raises when the product is an infinity or NaN.
\<close>

definition period_ns :: "pynum \<Rightarrow> error + int" where
  "period_ns f =
     (case py_truediv (PyInt 1) f of
        Inl e \<Rightarrow> Inl e
      | Inr q \<Rightarrow>
          (case py_mul q (PyFloat 1000000000) of
             Inl e \<Rightarrow> Inl e
           | Inr x \<Rightarrow> py_int (py_round0 x)))"

text \<open>\<^verbatim>\<open>int(round((duty_cycle_percent / 100) * pwm_period, 0))\<close>, lines 836 and 837.\<close>

definition duty_ns :: "pynum \<Rightarrow> int \<Rightarrow> error + int" where
  "duty_ns percent pwm_period =
     (case py_truediv percent (PyInt 100) of
        Inl e \<Rightarrow> Inl e
      | Inr q \<Rightarrow>
          (case py_mul q (PyInt pwm_period) of
             Inl e \<Rightarrow> Inl e
           | Inr x \<Rightarrow> py_int (py_round0 x)))"

text \<open>
  \<^verbatim>\<open>PWM.__init__\<close>. The four calls of the \<^verbatim>\<open>try\<close> block run in order; the first
  \<^verbatim>\<open>OSError\<close> among them goes to the handler, which for errno 16 warns, unexports and
  exports again, and then the constructor is over. Any other exception propagates.
\<close>

definition PWM_init_try :: "'d io \<Rightarrow> pwm \<Rightarrow> 'd world \<Rightarrow> ext_exception option \<times> 'd world" where
  "PWM_init_try io self w =
     (case call io (sysfs_PWM_Export (chip self) (pin self)) w of
        (Some e, w1) \<Rightarrow> (Some e, w1)
      | (None, w1) \<Rightarrow>
     (case (if invert_polarity self
            then call io (sysfs_PWM_Polarity (chip self) (pin self) True) w1
            else call io (sysfs_PWM_Polarity (chip self) (pin self) False) w1) of
        (Some e, w2) \<Rightarrow> (Some e, w2)
      | (None, w2) \<Rightarrow>
     (case call io (sysfs_PWM_Enable (chip self) (pin self)) w2 of
        (Some e, w3) \<Rightarrow> (Some e, w3)
      | (None, w3) \<Rightarrow>
          call io (sysfs_PWM_Frequency (chip self) (pin self) (frequency self)) w3)))"

definition PWM_init ::
  "'d io \<Rightarrow> int \<Rightarrow> int \<Rightarrow> pynum \<Rightarrow> pynum \<Rightarrow> bool \<Rightarrow> 'd world \<Rightarrow> (error + pwm) \<times> 'd world" where
  "PWM_init io chip0 pin0 frequency0 duty_cycle_percent0 invert_polarity0 w =
     (let self = \<lparr>chip = chip0, pin = pin0, frequency = frequency0,
                  duty_cycle_percent = duty_cycle_percent0,
                  invert_polarity = invert_polarity0\<rparr>
      in case PWM_init_try io self w of
           (None, w1) \<Rightarrow> (Inr self, w1)
         | (Some (OSError errno), w1) \<Rightarrow>
             if errno = 16 then
               (case call io (sysfs_PWM_Unexport chip0 pin0) (warn (Pin_already_in_use pin0) w1) of
                  (Some e, w2) \<Rightarrow> (Inl (Raised e), w2)
                | (None, w2) \<Rightarrow>
               (case call io (sysfs_PWM_Export chip0 pin0) w2 of
                  (Some e, w3) \<Rightarrow> (Inl (Raised e), w3)
                | (None, w3) \<Rightarrow> (Inr self, w3)))
             else (Inl (Raised (OSError errno)), w1)
         | (Some e, w1) \<Rightarrow> (Inl (Raised e), w1))"

text \<open>
  \<^verbatim>\<open>PWM.change_frequency\<close>. The new period, the new duty cycle and the old period are
  computed in this order, before any write, and an exception of the arithmetic ends the
  call there. The field \<open>frequency\<close> is assigned in the last statement.
\<close>

definition change_frequency ::
  "'d io \<Rightarrow> pwm \<Rightarrow> pynum \<Rightarrow> 'd world \<Rightarrow> (error + unit) \<times> pwm \<times> 'd world" where
  "change_frequency io self new_frequency w =
     (case period_ns new_frequency of
        Inl e \<Rightarrow> (Inl e, self, w)
      | Inr pwm_period \<Rightarrow>
     (case duty_ns (duty_cycle_percent self) pwm_period of
        Inl e \<Rightarrow> (Inl e, self, w)
      | Inr duty_cycle \<Rightarrow>
     (case period_ns (frequency self) of
        Inl e \<Rightarrow> (Inl e, self, w)
      | Inr old_pwm_period \<Rightarrow>
          if pwm_period > old_pwm_period then
            (case call io (sysfs_PWM_Period (chip self) (pin self) pwm_period) w of
               (Some e, w1) \<Rightarrow> (Inl (Raised e), self, w1)
             | (None, w1) \<Rightarrow>
            (case call io (sysfs_PWM_Duty_Cycle (chip self) (pin self) duty_cycle) w1 of
               (Some e, w2) \<Rightarrow> (Inl (Raised e), self, w2)
             | (None, w2) \<Rightarrow> (Inr (), self\<lparr>frequency := new_frequency\<rparr>, w2)))
          else
            (case call io (sysfs_PWM_Duty_Cycle (chip self) (pin self) duty_cycle) w of
               (Some e, w1) \<Rightarrow> (Inl (Raised e), self, w1)
             | (None, w1) \<Rightarrow>
            (case call io (sysfs_PWM_Period (chip self) (pin self) pwm_period) w1 of
               (Some e, w2) \<Rightarrow> (Inl (Raised e), self, w2)
             | (None, w2) \<Rightarrow> (Inr (), self\<lparr>frequency := new_frequency\<rparr>, w2))))))"

text \<open>
  \<^verbatim>\<open>PWM.duty_cycle\<close>. The guard is Python's \<^verbatim>\<open>0 <= duty_cycle_percent <= 100\<close>, which is
  false for NaN. The field is assigned before the call into sysfs, so the object returned
  on an exception of that call already has the new percentage.
\<close>

definition duty_cycle ::
  "'d io \<Rightarrow> pwm \<Rightarrow> pynum \<Rightarrow> 'd world \<Rightarrow> (error + unit) \<times> pwm \<times> 'd world" where
  "duty_cycle io self percent w =
     (if py_le (PyInt 0) percent \<and> py_le percent (PyInt 100) then
        let self1 = self\<lparr>duty_cycle_percent := percent\<rparr>
        in case call io (sysfs_PWM_Duty_Cycle_Percent (chip self1) (pin self1)
                           (duty_cycle_percent self1)) w of
             (Some e, w1) \<Rightarrow> (Inl (Raised e), self1, w1)
           | (None, w1) \<Rightarrow> (Inr (), self1, w1)
      else (Inl (Duty_cycle_out_of_bounds percent), self, w))"

section \<open>The module-level GPIO functions\<close>

datatype pull = PUD_OFF | PUD_DOWN | PUD_UP

text \<open>
  \<^verbatim>\<open>_check_configured\<close>: \<open>None\<close> when the check passes, the exception otherwise.
  \<^verbatim>\<open>_exports.get(channel)\<close> is \<open>map_of\<close> on the association list.
\<close>

definition check_configured :: "'d world \<Rightarrow> channel \<Rightarrow> direction option \<Rightarrow> error option" where
  "check_configured w channel direction =
     (case map_of (exports w) channel of
        None \<Rightarrow> Some (Channel_is_not_configured channel)
      | Some configured \<Rightarrow>
          (case direction of
             None \<Rightarrow> None
           | Some d \<Rightarrow>
               if d \<noteq> configured then Some (Channel_is_configured_for channel configured)
               else None))"

text \<open>
  The \<^verbatim>\<open>try\<close>/\<^verbatim>\<open>except\<close> around \<^verbatim>\<open>sysfs.export(pin)\<close> in \<^verbatim>\<open>setup\<close>: on errno 16 warn
  (when warnings are on), unexport, export again; any other exception propagates.
\<close>

definition setup_export ::
  "'d io \<Rightarrow> channel \<Rightarrow> int \<Rightarrow> 'd world \<Rightarrow> ext_exception option \<times> 'd world" where
  "setup_export io channel pin0 w =
     (case call io (sysfs_export pin0) w of
        (None, w1) \<Rightarrow> (None, w1)
      | (Some (OSError errno), w1) \<Rightarrow>
          if errno = 16 then
            let w2 = (if gpio_warnings w1 then warn (Channel_already_in_use channel) w1 else w1)
            in (case call io (sysfs_unexport pin0) w2 of
                  (Some e, w3) \<Rightarrow> (Some e, w3)
                | (None, w3) \<Rightarrow> call io (sysfs_export pin0) w3)
          else (Some (OSError errno), w1)
      | (Some e, w1) \<Rightarrow> (Some e, w1))"

text \<open>
  \<^verbatim>\<open>setup\<close>, named \<open>setup_gpio\<close> here. \<open>setup_for\<close> is the \<^verbatim>\<open>for ch in channel\<close> loop of the list branch; it calls
  \<^verbatim>\<open>setup(ch, direction, initial)\<close>, so \<^verbatim>\<open>pull_up_down\<close> is \<open>None\<close> in the inner calls.
  An exception leaves the loop at once, with the state as it is.
\<close>

fun setup_gpio ::
    "'d io \<Rightarrow> pin_table \<Rightarrow> chan_arg \<Rightarrow> direction \<Rightarrow> level option \<Rightarrow> pull option \<Rightarrow> 'd world
      \<Rightarrow> (error + unit) \<times> 'd world"
  and setup_for ::
    "'d io \<Rightarrow> pin_table \<Rightarrow> chan_arg list \<Rightarrow> direction \<Rightarrow> level option \<Rightarrow> 'd world
      \<Rightarrow> (error + unit) \<times> 'd world" where
  "setup_gpio io tbl (ChanList chs) direction initial pull_up_down w =
     (if mode w = None then (Inl Mode_has_not_been_set, w)
      else
        let w1 = (if pull_up_down \<noteq> None \<and> gpio_warnings w
                  then warn Pull_up_down_not_supported w else w)
        in setup_for io tbl chs direction initial w1)"
| "setup_gpio io tbl (Chan channel) direction initial pull_up_down w =
     (if mode w = None then (Inl Mode_has_not_been_set, w)
      else
        let w1 = (if pull_up_down \<noteq> None \<and> gpio_warnings w
                  then warn Pull_up_down_not_supported w else w)
        in if map_of (exports w1) channel \<noteq> None
           then (Inl (Channel_is_already_configured channel), w1)
           else
             (case tbl (mode w1) channel of
                Inl e \<Rightarrow> (Inl (Raised e), w1)
              | Inr pin0 \<Rightarrow>
             (case setup_export io channel pin0 w1 of
                (Some e, w2) \<Rightarrow> (Inl (Raised e), w2)
              | (None, w2) \<Rightarrow>
             (case call io (sysfs_direction pin0 direction) w2 of
                (Some e, w3) \<Rightarrow> (Inl (Raised e), w3)
              | (None, w3) \<Rightarrow>
                  let w4 = w3\<lparr>exports := AList.update channel direction (exports w3)\<rparr>
                  in (case (direction, initial) of
                        (OUT, Some v) \<Rightarrow>
                          (case call io (sysfs_output pin0 v) w4 of
                             (Some e, w5) \<Rightarrow> (Inl (Raised e), w5)
                           | (None, w5) \<Rightarrow> (Inr (), w5))
                      | _ \<Rightarrow> (Inr (), w4))))))"
| "setup_for io tbl [] direction initial w = (Inr (), w)"
| "setup_for io tbl (ch # chs) direction initial w =
     (case setup_gpio io tbl ch direction initial None w of
        (Inl e, w1) \<Rightarrow> (Inl e, w1)
      | (Inr _, w1) \<Rightarrow> setup_for io tbl chs direction initial w1)"

text \<open>\<^verbatim>\<open>output\<close>, named \<open>output_gpio\<close> here; \<open>output_for\<close> is the loop of the list branch.\<close>

fun output_gpio ::
    "'d io \<Rightarrow> pin_table \<Rightarrow> chan_arg \<Rightarrow> level \<Rightarrow> 'd world \<Rightarrow> (error + unit) \<times> 'd world"
  and output_for ::
    "'d io \<Rightarrow> pin_table \<Rightarrow> chan_arg list \<Rightarrow> level \<Rightarrow> 'd world \<Rightarrow> (error + unit) \<times> 'd world" where
  "output_gpio io tbl (ChanList chs) state w = output_for io tbl chs state w"
| "output_gpio io tbl (Chan channel) state w =
     (case check_configured w channel (Some OUT) of
        Some e \<Rightarrow> (Inl e, w)
      | None \<Rightarrow>
     (case tbl (mode w) channel of
        Inl e \<Rightarrow> (Inl (Raised e), w)
      | Inr pin0 \<Rightarrow>
     (case call io (sysfs_output pin0 state) w of
        (Some e, w1) \<Rightarrow> (Inl (Raised e), w1)
      | (None, w1) \<Rightarrow> (Inr (), w1))))"
| "output_for io tbl [] state w = (Inr (), w)"
| "output_for io tbl (ch # chs) state w =
     (case output_gpio io tbl ch state w of
        (Inl e, w1) \<Rightarrow> (Inl e, w1)
      | (Inr _, w1) \<Rightarrow> output_for io tbl chs state w1)"

text \<open>
  \<^verbatim>\<open>cleanup\<close> with an argument: the \<^verbatim>\<open>elif isinstance(channel, list)\<close> branch and the
  \<^verbatim>\<open>else\<close> branch. \<^verbatim>\<open>del _exports[channel]\<close> comes after \<^verbatim>\<open>_check_configured\<close>, so the
  key is there.
\<close>

fun cleanup_channel ::
    "'d io \<Rightarrow> pin_table \<Rightarrow> chan_arg \<Rightarrow> 'd world \<Rightarrow> (error + unit) \<times> 'd world"
  and cleanup_for ::
    "'d io \<Rightarrow> pin_table \<Rightarrow> chan_arg list \<Rightarrow> 'd world \<Rightarrow> (error + unit) \<times> 'd world" where
  "cleanup_channel io tbl (ChanList chs) w = cleanup_for io tbl chs w"
| "cleanup_channel io tbl (Chan channel) w =
     (case check_configured w channel None of
        Some e \<Rightarrow> (Inl e, w)
      | None \<Rightarrow>
     (case tbl (mode w) channel of
        Inl e \<Rightarrow> (Inl (Raised e), w)
      | Inr pin0 \<Rightarrow>
     (case call io (event_cleanup pin0) w of
        (Some e, w1) \<Rightarrow> (Inl (Raised e), w1)
      | (None, w1) \<Rightarrow>
     (case call io (sysfs_unexport pin0) w1 of
        (Some e, w2) \<Rightarrow> (Inl (Raised e), w2)
      | (None, w2) \<Rightarrow> (Inr (), w2\<lparr>exports := AList.delete channel (exports w2)\<rparr>)))))"
| "cleanup_for io tbl [] w = (Inr (), w)"
| "cleanup_for io tbl (ch # chs) w =
     (case cleanup_channel io tbl ch w of
        (Inl e, w1) \<Rightarrow> (Inl e, w1)
      | (Inr _, w1) \<Rightarrow> cleanup_for io tbl chs w1)"

text \<open>
  \<^verbatim>\<open>cleanup(channel=None)\<close>. Without an argument it cleans up
  \<^verbatim>\<open>list(_exports.keys())\<close>, then runs \<^verbatim>\<open>setwarnings(True)\<close> and \<^verbatim>\<open>_mode = None\<close>.
\<close>

definition cleanup ::
  "'d io \<Rightarrow> pin_table \<Rightarrow> chan_arg option \<Rightarrow> 'd world \<Rightarrow> (error + unit) \<times> 'd world" where
  "cleanup io tbl channel w =
     (case channel of
        None \<Rightarrow>
          (case cleanup_channel io tbl (ChanList (map (\<lambda>kv. Chan (fst kv)) (exports w))) w of
             (Inl e, w1) \<Rightarrow> (Inl e, w1)
           | (Inr _, w1) \<Rightarrow> (Inr (), w1\<lparr>gpio_warnings := True, mode := None\<rparr>))
      | Some ch \<Rightarrow> cleanup_channel io tbl ch w)"

text \<open>\<^verbatim>\<open>__wrap\<close>\<close>

definition wrap :: "callback option \<Rightarrow> channel \<Rightarrow> (callback \<times> channel) option" where
  "wrap cb channel = (case cb of None \<Rightarrow> None | Some f \<Rightarrow> Some (f, channel))"

text \<open>
  \<^verbatim>\<open>add_event_detect\<close> and \<^verbatim>\<open>add_event_callback\<close>. The only use of \<^verbatim>\<open>bouncetime\<close> is
  the test \<^verbatim>\<open>bouncetime is not None\<close>.
\<close>

definition add_event_detect ::
  "'d io \<Rightarrow> pin_table \<Rightarrow> channel \<Rightarrow> trigger \<Rightarrow> callback option \<Rightarrow> int option \<Rightarrow> 'd world
    \<Rightarrow> (error + unit) \<times> 'd world" where
  "add_event_detect io tbl channel trig cb bouncetime w =
     (case check_configured w channel (Some IN) of
        Some e \<Rightarrow> (Inl e, w)
      | None \<Rightarrow>
          let w1 = (if bouncetime \<noteq> None \<and> gpio_warnings w
                    then warn Bouncetime_not_supported w else w)
          in (case tbl (mode w1) channel of
                Inl e \<Rightarrow> (Inl (Raised e), w1)
              | Inr pin0 \<Rightarrow>
                  (case call io (event_add_edge_detect pin0 trig (wrap cb channel)) w1 of
                     (Some e, w2) \<Rightarrow> (Inl (Raised e), w2)
                   | (None, w2) \<Rightarrow> (Inr (), w2))))"

definition add_event_callback ::
  "'d io \<Rightarrow> pin_table \<Rightarrow> channel \<Rightarrow> callback option \<Rightarrow> int option \<Rightarrow> 'd world
    \<Rightarrow> (error + unit) \<times> 'd world" where
  "add_event_callback io tbl channel cb bouncetime w =
     (case check_configured w channel (Some IN) of
        Some e \<Rightarrow> (Inl e, w)
      | None \<Rightarrow>
          let w1 = (if bouncetime \<noteq> None \<and> gpio_warnings w
                    then warn Bouncetime_not_supported w else w)
          in (case tbl (mode w1) channel of
                Inl e \<Rightarrow> (Inl (Raised e), w1)
              | Inr pin0 \<Rightarrow>
                  (case call io (event_add_edge_callback pin0 (wrap cb channel)) w1 of
                     (Some e, w2) \<Rightarrow> (Inl (Raised e), w2)
                   | (None, w2) \<Rightarrow> (Inr (), w2))))"

section \<open>Devices and pin tables to run the model on\<close>

text \<open>
  A scripted device answers the calls it receives from a list, one answer per call, and
  accepts every call once the list is used up.
\<close>

definition scripted :: "(ext_exception option list) io" where
  "scripted answers c = (case answers of [] \<Rightarrow> (None, []) | r # rs \<Rightarrow> (r, rs))"

text \<open>A device that accepts every call.\<close>

definition accepting :: "unit io" where
  "accepting d c = (None, d)"

text \<open>A pin table that maps the channel number \<open>n\<close> to the pin \<open>n\<close> and knows no names.\<close>

definition number_table :: pin_table where
  "number_table m channel =
     (case channel of
        ChanInt n \<Rightarrow> Inr n
      | ChanStr s \<Rightarrow> Inl (OtherException ''KeyError''))"

definition world0 :: "'d \<Rightarrow> 'd world" where
  "world0 d = \<lparr>gpio_warnings = True, mode = None, exports = [], trace = [], device = d\<rparr>"

text \<open>
  Modelled from the spec: the PWM control surface, which is the kernel's and is not part of
  the repository. It holds the two attributes of one channel and "rejects any write that
  would leave \<^verbatim>\<open>duty_cycle_length > period_length\<close>" (22 is \<^verbatim>\<open>EINVAL\<close>); every other
  call is accepted and changes neither attribute.
\<close>

record pwm_regs =
  period_reg :: int
  duty_reg :: int

definition pwm_surface :: "pwm_regs io" where
  "pwm_surface regs c =
     (case c of
        sysfs_PWM_Period _ _ p \<Rightarrow>
          if duty_reg regs > p then (Some (OSError 22), regs)
          else (None, regs\<lparr>period_reg := p\<rparr>)
      | sysfs_PWM_Duty_Cycle _ _ d \<Rightarrow>
          if d > period_reg regs then (Some (OSError 22), regs)
          else (None, regs\<lparr>duty_reg := d\<rparr>)
      | _ \<Rightarrow> (None, regs))"

text \<open>
  A double, for the lemmas about rounding: a multiple of a power of two not below
  \<open>2^-1074\<close> whose significand has at most 53 bits. No bound from above.
\<close>

definition dbl :: "rat \<Rightarrow> bool" where
  "dbl y \<longleftrightarrow> (\<exists>m e. y = of_int m * pow2 e \<and> \<bar>m\<bar> \<le> 2 ^ 53 \<and> - 1074 \<le> e)"

text \<open>
  The words of the specification for a batch: "apply the single-channel operation to each
  member in the order given; the first failure propagates and leaves already-applied
  changes in place".
\<close>

fun in_order_until_failure ::
  "('a \<Rightarrow> 'w \<Rightarrow> (error + unit) \<times> 'w) \<Rightarrow> 'a list \<Rightarrow> 'w \<Rightarrow> (error + unit) \<times> 'w" where
  "in_order_until_failure op1 [] w = (Inr (), w)"
| "in_order_until_failure op1 (x # xs) w =
     (case op1 x w of
        (Inl e, w1) \<Rightarrow> (Inl e, w1)
      | (Inr _, w1) \<Rightarrow> in_order_until_failure op1 xs w1)"

section \<open>Properties of the arithmetic\<close>

lemma pow2_powi: "pow2 e = 2 powi e"
  by (simp add: pow2_def power_int_def power_one_over inverse_eq_divide)

lemma pow2_pos [simp]: "0 < pow2 e"
  by (simp add: pow2_powi)

lemma pow2_nonneg [simp]: "0 \<le> pow2 e"
  by (rule less_imp_le) simp

lemma pow2_add: "pow2 (a + b) = pow2 a * pow2 b"
  by (simp add: pow2_powi power_int_add)

lemma pow2_mono: "a \<le> b \<Longrightarrow> pow2 a \<le> pow2 b"
  by (simp add: pow2_powi power_int_increasing)

lemma pow2_strict_mono: "a < b \<Longrightarrow> pow2 a < pow2 b"
  by (simp add: pow2_powi power_int_strict_increasing)

lemma pow2_nat: "0 \<le> e \<Longrightarrow> pow2 e = of_int (2 ^ nat e)"
  by (simp add: pow2_def)

lemma pow2_less_cancel: "pow2 a < pow2 b \<Longrightarrow> a < b"
  using pow2_mono [of b a] by (cases "a < b") auto

lemma ilog2_bounds:
  assumes "0 < x"
  shows "pow2 (ilog2 x) \<le> x" and "x < pow2 (ilog2 x + 1)"
proof -
  have "pow2 (ilog2 x) \<le> x \<and> x < pow2 (ilog2 x + 1)"
  proof (cases "1 \<le> x")
    case True
    define n where "n = \<lfloor>x\<rfloor>"
    have n: "0 < n" using True by (simp add: n_def)
    from bitlen_bounds [OF n] have lo: "2 ^ nat (bitlen n - 1) \<le> n" and hi: "n < 2 ^ nat (bitlen n)"
      by auto
    have b1: "1 \<le> bitlen n" using n by (simp add: bitlen_alt_def)
    have i: "ilog2 x = bitlen n - 1" using True by (simp add: ilog2_def n_def)
    have "pow2 (bitlen n - 1) = of_int (2 ^ nat (bitlen n - 1))"
      using b1 by (simp add: pow2_nat)
    also have "\<dots> \<le> of_int n" using lo by (simp only: of_int_le_iff)
    also have "\<dots> \<le> x" by (simp add: n_def)
    finally have 1: "pow2 (ilog2 x) \<le> x" by (simp add: i)
    have "n + 1 \<le> 2 ^ nat (bitlen n)" using hi by simp
    then have "(of_int (n + 1) :: rat) \<le> of_int (2 ^ nat (bitlen n))" by (simp only: of_int_le_iff)
    moreover have "x < of_int (n + 1)" using floor_correct [of x] by (simp add: n_def)
    moreover have "pow2 (bitlen n) = of_int (2 ^ nat (bitlen n))" using b1 by (simp add: pow2_nat)
    ultimately have 2: "x < pow2 (ilog2 x + 1)" by (simp add: i)
    from 1 2 show ?thesis ..
  next
    case False
    define y where "y = 1 / x"
    have y1: "1 < y" using False assms by (simp add: y_def)
    define n where "n = \<lceil>y\<rceil> - 1"
    have n: "0 < n" using y1 by (simp add: n_def)
    from bitlen_bounds [OF n] have lo: "2 ^ nat (bitlen n - 1) \<le> n" and hi: "n < 2 ^ nat (bitlen n)"
      by auto
    have b1: "1 \<le> bitlen n" using n by (simp add: bitlen_alt_def)
    have i: "ilog2 x = - bitlen n" using False by (simp add: ilog2_def n_def y_def)
    have yn: "of_int n < y" "y \<le> of_int (n + 1)"
      unfolding n_def by linarith+
    have "(of_int (n + 1) :: rat) \<le> of_int (2 ^ nat (bitlen n))"
      using hi by (simp only: of_int_le_iff)
    with yn have yhi: "y \<le> 2 ^ nat (bitlen n)" by simp
    have "(of_int (2 ^ nat (bitlen n - 1)) :: rat) \<le> of_int n"
      using lo by (simp only: of_int_le_iff)
    then have "(2 :: rat) ^ nat (bitlen n - 1) \<le> of_int n" by simp
    with yn have ylo: "2 ^ nat (bitlen n - 1) < y" by linarith
    have p1: "pow2 (- bitlen n) = 1 / 2 ^ nat (bitlen n)"
      using b1 by (simp add: pow2_def)
    have p2: "pow2 (- bitlen n + 1) = 1 / 2 ^ nat (bitlen n - 1)"
    proof (cases "bitlen n = 1")
      case True
      then show ?thesis by (simp add: pow2_def)
    next
      case False
      with b1 have "- bitlen n + 1 < 0" by simp
      then show ?thesis by (simp add: pow2_def)
    qed
    have x: "x = 1 / y" using assms by (simp add: y_def)
    have ypos: "0 < y" using y1 by simp
    have "1 / 2 ^ nat (bitlen n) \<le> 1 / y"
      using yhi ypos by (simp add: field_simps)
    moreover have "pow2 (ilog2 x) = 1 / 2 ^ nat (bitlen n)"
      by (simp only: i p1)
    ultimately have 1: "pow2 (ilog2 x) \<le> x"
      using x by simp
    have "1 / y < 1 / 2 ^ nat (bitlen n - 1)"
      using ylo ypos by (simp add: field_simps)
    moreover have "pow2 (ilog2 x + 1) = 1 / 2 ^ nat (bitlen n - 1)"
      by (simp only: i p2)
    ultimately have 2: "x < pow2 (ilog2 x + 1)"
      using x by simp
    from 1 2 show ?thesis ..
  qed
  then show "pow2 (ilog2 x) \<le> x" and "x < pow2 (ilog2 x + 1)" by auto
qed

lemma ilog2_less: "0 < x \<Longrightarrow> x < pow2 n \<Longrightarrow> ilog2 x < n"
  using ilog2_bounds(1) [of x] pow2_less_cancel [of "ilog2 x" n] by simp

lemma less_pow2_ilog2: "0 < x \<Longrightarrow> ilog2 x < n \<Longrightarrow> x < pow2 n"
  using ilog2_bounds(2) [of x] pow2_mono [of "ilog2 x + 1" n] by simp

lemma rhe_le: "x \<le> of_int n \<Longrightarrow> round_half_even x \<le> n"
proof -
  assume h: "x \<le> of_int n"
  then have fl: "\<lfloor>x\<rfloor> \<le> n" by (simp add: floor_le_iff)
  show ?thesis
  proof (cases "\<lfloor>x\<rfloor> = n")
    case True
    with h have "x - of_int \<lfloor>x\<rfloor> \<le> 0" by simp
    then show ?thesis using True by (simp add: round_half_even_def Let_def)
  next
    case False
    with fl have "\<lfloor>x\<rfloor> + 1 \<le> n" by simp
    then show ?thesis using fl by (simp add: round_half_even_def Let_def)
  qed
qed

lemma rhe_ge: "of_int n \<le> x \<Longrightarrow> n \<le> round_half_even x"
proof -
  assume "of_int n \<le> x"
  then have "n \<le> \<lfloor>x\<rfloor>" by (simp add: le_floor_iff)
  then show ?thesis by (simp add: round_half_even_def Let_def)
qed

lemma rhe_of_int [simp]: "round_half_even (of_int n) = n"
  by (simp add: round_half_even_def)

lemma nearest_double_pos:
  "0 < x \<Longrightarrow> nearest_double x =
     of_int (round_half_even (x / pow2 (max (ilog2 x - 52) (- 1074))))
       * pow2 (max (ilog2 x - 52) (- 1074))"
  by (simp add: nearest_double_def Let_def)

lemma nearest_double_nonneg: "0 \<le> x \<Longrightarrow> 0 \<le> nearest_double x"
proof (cases "x = 0")
  case True
  then show ?thesis by (simp add: nearest_double_def)
next
  case False
  assume "0 \<le> x"
  with False have x: "0 < x" by simp
  have "of_int 0 \<le> x / pow2 (max (ilog2 x - 52) (- 1074))" using x by simp
  then have "0 \<le> round_half_even (x / pow2 (max (ilog2 x - 52) (- 1074)))" by (rule rhe_ge)
  then show ?thesis using x by (simp add: nearest_double_pos)
qed

text \<open>A double at or above a positive \<open>x\<close> lies on the grid that \<open>x\<close> is rounded to.\<close>

lemma grid_above:
  assumes x: "0 < x" and xy: "x \<le> y" and y: "dbl y"
  shows "\<exists>j. y = of_int j * pow2 (max (ilog2 x - 52) (- 1074))"
proof -
  let ?e = "max (ilog2 x - 52) (- 1074)"
  from y obtain m e' where m: "y = of_int m * pow2 e'" "\<bar>m\<bar> \<le> 2 ^ 53" "- 1074 \<le> e'"
    by (auto simp: dbl_def)
  show ?thesis
  proof (cases "?e \<le> e'")
    case True
    then have "pow2 e' = pow2 (e' - ?e) * pow2 ?e"
      using pow2_add [of "e' - ?e" ?e] by simp
    also have "pow2 (e' - ?e) = of_int (2 ^ nat (e' - ?e))"
      using True by (simp add: pow2_nat)
    finally have "y = of_int (m * 2 ^ nat (e' - ?e)) * pow2 ?e"
      using m(1) by simp
    then show ?thesis ..
  next
    case False
    with m(3) have e: "?e = ilog2 x - 52" and lt: "e' + 1 \<le> ilog2 x - 52" by auto
    have "of_int m \<le> (2 ^ 53 :: rat)"
    proof -
      have "m \<le> 2 ^ 53" using m(2) by simp
      then have "(of_int m :: rat) \<le> of_int (2 ^ 53)" by (simp only: of_int_le_iff)
      then show ?thesis by simp
    qed
    then have "y \<le> 2 ^ 53 * pow2 e'"
      unfolding m(1) by (rule mult_right_mono) simp
    also have "\<dots> = pow2 (53 + e')"
      by (simp add: pow2_add) (simp add: pow2_def)
    also have "\<dots> \<le> pow2 (ilog2 x)" using lt by (intro pow2_mono) simp
    also have "\<dots> \<le> x" using x by (rule ilog2_bounds)
    finally have "y = pow2 (ilog2 x)"
      using xy ilog2_bounds(1) [OF x] \<open>y \<le> 2 ^ 53 * pow2 e'\<close>
        \<open>2 ^ 53 * pow2 e' = pow2 (53 + e')\<close> \<open>pow2 (53 + e') \<le> pow2 (ilog2 x)\<close>
      by linarith
    also have "pow2 (ilog2 x) = pow2 52 * pow2 ?e"
      using pow2_add [of 52 "ilog2 x - 52"] e by simp
    also have "pow2 52 = of_int (2 ^ 52)" by (simp add: pow2_def)
    finally show ?thesis ..
  qed
qed

lemma nearest_double_le:
  assumes x: "0 < x" and xy: "x \<le> y" and y: "dbl y"
  shows "nearest_double x \<le> y"
proof -
  let ?e = "max (ilog2 x - 52) (- 1074)"
  from grid_above [OF assms] obtain j where j: "y = of_int j * pow2 ?e" ..
  have "x / pow2 ?e \<le> of_int j" using xy j by (simp add: field_simps)
  then have "round_half_even (x / pow2 ?e) \<le> j" by (rule rhe_le)
  then have "(of_int (round_half_even (x / pow2 ?e)) :: rat) \<le> of_int j"
    by (simp only: of_int_le_iff)
  then have "of_int (round_half_even (x / pow2 ?e)) * pow2 ?e \<le> of_int j * pow2 ?e"
    by (rule mult_right_mono) simp
  then show ?thesis using x j by (simp add: nearest_double_pos)
qed

lemma nearest_double_ge:
  assumes x: "0 < x" and yx: "y \<le> x" and y: "dbl y"
  shows "y \<le> nearest_double x"
proof (cases "0 < y")
  case False
  with nearest_double_nonneg [of x] x show ?thesis by simp
next
  case ypos: True
  let ?e = "max (ilog2 x - 52) (- 1074)"
  from y obtain m e' where m: "y = of_int m * pow2 e'" "\<bar>m\<bar> \<le> 2 ^ 53" "- 1074 \<le> e'"
    by (auto simp: dbl_def)
  have nd: "nearest_double x = of_int (round_half_even (x / pow2 ?e)) * pow2 ?e"
    using x by (rule nearest_double_pos)
  show ?thesis
  proof (cases "?e \<le> e'")
    case True
    then have "pow2 e' = pow2 (e' - ?e) * pow2 ?e"
      using pow2_add [of "e' - ?e" ?e] by simp
    also have "pow2 (e' - ?e) = of_int (2 ^ nat (e' - ?e))"
      using True by (simp add: pow2_nat)
    finally have j: "y = of_int (m * 2 ^ nat (e' - ?e)) * pow2 ?e"
      using m(1) by simp
    define j where "j = m * 2 ^ nat (e' - ?e)"
    have "of_int j \<le> x / pow2 ?e" using yx j by (simp add: j_def field_simps)
    then have "j \<le> round_half_even (x / pow2 ?e)" by (rule rhe_ge)
    then have "(of_int j :: rat) \<le> of_int (round_half_even (x / pow2 ?e))"
      by (simp only: of_int_le_iff)
    then have "of_int j * pow2 ?e \<le> of_int (round_half_even (x / pow2 ?e)) * pow2 ?e"
      by (rule mult_right_mono) simp
    then show ?thesis using j nd by (simp add: j_def)
  next
    case False
    with m(3) have e: "?e = ilog2 x - 52" and lt: "e' + 1 \<le> ilog2 x - 52" by auto
    have "of_int m \<le> (2 ^ 53 :: rat)"
    proof -
      have "m \<le> 2 ^ 53" using m(2) by simp
      then have "(of_int m :: rat) \<le> of_int (2 ^ 53)" by (simp only: of_int_le_iff)
      then show ?thesis by simp
    qed
    then have "y \<le> 2 ^ 53 * pow2 e'"
      unfolding m(1) by (rule mult_right_mono) simp
    also have "\<dots> = pow2 (53 + e')"
      by (simp add: pow2_add) (simp add: pow2_def)
    also have "\<dots> \<le> pow2 (ilog2 x)" using lt by (intro pow2_mono) simp
    finally have yk: "y \<le> pow2 (ilog2 x)" .
    have k: "pow2 (ilog2 x) = of_int (2 ^ 52) * pow2 ?e"
      using pow2_add [of 52 "ilog2 x - 52"] e by (simp add: pow2_def)
    have "of_int (2 ^ 52) \<le> x / pow2 ?e"
      using ilog2_bounds(1) [OF x] k by (simp add: field_simps)
    then have "2 ^ 52 \<le> round_half_even (x / pow2 ?e)" by (rule rhe_ge)
    then have "(of_int (2 ^ 52) :: rat) \<le> of_int (round_half_even (x / pow2 ?e))"
      by (simp only: of_int_le_iff)
    then have "of_int (2 ^ 52) * pow2 ?e \<le> of_int (round_half_even (x / pow2 ?e)) * pow2 ?e"
      by (rule mult_right_mono) simp
    then have "pow2 (ilog2 x) \<le> nearest_double x" by (simp only: k nd)
    with yk show ?thesis by (rule order_trans)
  qed
qed

lemma dbl_nearest_double: "0 \<le> x \<Longrightarrow> dbl (nearest_double x)"
proof (cases "x = 0")
  case True
  have "(0 :: rat) = of_int 0 * pow2 0" by simp
  then have "dbl 0" unfolding dbl_def by (intro exI [of _ 0] exI [of _ "0 :: int"]) simp
  with True show ?thesis by (simp add: nearest_double_def)
next
  case False
  assume "0 \<le> x"
  with False have x: "0 < x" by simp
  let ?e = "max (ilog2 x - 52) (- 1074)"
  let ?m = "round_half_even (x / pow2 ?e)"
  have "x < pow2 (ilog2 x + 1)" using x by (rule ilog2_bounds)
  also have "\<dots> \<le> pow2 (53 + ?e)" by (intro pow2_mono) simp
  also have "\<dots> = of_int (2 ^ 53) * pow2 ?e" by (simp add: pow2_add) (simp add: pow2_def)
  finally have "x / pow2 ?e \<le> of_int (2 ^ 53)" by (simp add: field_simps)
  then have hi: "?m \<le> 2 ^ 53" by (rule rhe_le)
  have "of_int 0 \<le> x / pow2 ?e" using x by simp
  then have lo: "0 \<le> ?m" by (rule rhe_ge)
  have "nearest_double x = of_int ?m * pow2 ?e" using x by (rule nearest_double_pos)
  moreover have "\<bar>?m\<bar> \<le> 2 ^ 53" using lo hi by simp
  moreover have "- 1074 \<le> ?e" by simp
  ultimately show ?thesis unfolding dbl_def by blast
qed

lemma nearest_double_id: "0 \<le> y \<Longrightarrow> dbl y \<Longrightarrow> nearest_double y = y"
proof (cases "y = 0")
  case True
  then show ?thesis by (simp add: nearest_double_def)
next
  case False
  assume "0 \<le> y" and d: "dbl y"
  with False have y: "0 < y" by simp
  from nearest_double_le [OF y _ d] nearest_double_ge [OF y _ d] show ?thesis by simp
qed

lemma ilog2_zero [simp]: "ilog2 0 = 0"
  by (simp add: ilog2_def bitlen_alt_def)

lemma dbl_small_int: "\<bar>n\<bar> \<le> 2 ^ 53 \<Longrightarrow> dbl (of_int n)"
  unfolding dbl_def by (intro exI [of _ n] exI [of _ "0 :: int"]) (simp add: pow2_def)

lemma small_less_pow2_1024: "x \<le> 2 ^ 53 \<Longrightarrow> x < pow2 1024"
proof -
  assume "x \<le> 2 ^ 53"
  also have "(2 ^ 53 :: rat) = pow2 53" by (simp add: pow2_def)
  also have "\<dots> < pow2 1024" by (rule pow2_strict_mono) simp
  finally show ?thesis .
qed

lemma fl_le:
  assumes x: "0 \<le> x" and xy: "x \<le> y" and y: "dbl y" and fin: "y < pow2 1024"
  shows "\<exists>z. fl x = PyFloat z \<and> 0 \<le> z \<and> z \<le> y \<and> dbl z"
proof -
  let ?r = "nearest_double x"
  have r0: "0 \<le> ?r" using x by (rule nearest_double_nonneg)
  have ry: "?r \<le> y"
  proof (cases "x = 0")
    case True
    with xy show ?thesis by (simp add: nearest_double_def)
  next
    case False
    with x have "0 < x" by simp
    then show ?thesis using xy y by (rule nearest_double_le)
  qed
  have "ilog2 \<bar>?r\<bar> < 1024"
  proof (cases "?r = 0")
    case True
    then show ?thesis by simp
  next
    case False
    with r0 have "0 < ?r" by simp
    moreover from ry fin have "?r < pow2 1024" by simp
    ultimately have "ilog2 ?r < 1024" by (rule ilog2_less)
    with r0 show ?thesis by simp
  qed
  then have "fl x = PyFloat ?r" by (simp add: fl_def Let_def)
  with r0 ry dbl_nearest_double [OF x] show ?thesis by blast
qed

lemma fl_nonneg:
  assumes x: "0 \<le> x"
  shows "fl x = PyInf \<or> (\<exists>z. fl x = PyFloat z \<and> 0 \<le> z \<and> dbl z \<and> z < pow2 1024)"
proof -
  let ?r = "nearest_double x"
  have r0: "0 \<le> ?r" using x by (rule nearest_double_nonneg)
  show ?thesis
  proof (cases "1024 \<le> ilog2 \<bar>?r\<bar>")
    case True
    then have "?r \<noteq> 0" by auto
    with r0 have "0 < ?r" by simp
    with True show ?thesis by (simp add: fl_def Let_def)
  next
    case False
    then have f: "fl x = PyFloat ?r" by (simp add: fl_def Let_def)
    have "?r < pow2 1024"
    proof (cases "?r = 0")
      case True
      then show ?thesis by simp
    next
      case False
      with r0 have "0 < ?r" by simp
      moreover from \<open>\<not> 1024 \<le> ilog2 \<bar>?r\<bar>\<close> r0 have "ilog2 ?r < 1024" by simp
      ultimately show ?thesis by (rule less_pow2_ilog2)
    qed
    with f r0 dbl_nearest_double [OF x] show ?thesis by blast
  qed
qed

lemma fl_exact:
  assumes "0 \<le> y" and "dbl y" and "y < pow2 1024"
  shows "fl y = PyFloat y"
proof -
  from fl_le [OF assms(1) order_refl assms(2,3)]
  have "fl y = PyFloat (nearest_double y)"
    by (auto simp: fl_def Let_def split: if_splits)
  with nearest_double_id [OF assms(1,2)] show ?thesis by simp
qed

lemma to_float_int:
  "0 \<le> p \<Longrightarrow> dbl (of_int p) \<Longrightarrow> of_int p < pow2 1024 \<Longrightarrow>
     to_float (PyInt p) = Inr (PyFloat (of_int p))"
  by (simp add: fl_exact)

lemma rhe_dbl:
  assumes z: "0 \<le> z" and d: "dbl z" and fin: "z < pow2 1024"
  shows "0 \<le> round_half_even z \<and> dbl (of_int (round_half_even z))
         \<and> of_int (round_half_even z) < pow2 1024"
proof -
  have "of_int 0 \<le> z" using z by simp
  then have lo: "0 \<le> round_half_even z" by (rule rhe_ge)
  from d obtain m e where m: "z = of_int m * pow2 e" "\<bar>m\<bar> \<le> 2 ^ 53" "- 1074 \<le> e"
    by (auto simp: dbl_def)
  show ?thesis
  proof (cases "0 \<le> e")
    case True
    then have "\<exists>k :: int. z = of_int k"
      using m(1) by (intro exI [of _ "m * 2 ^ nat e"]) (simp add: pow2_nat)
    then obtain k :: int where k: "z = of_int k" ..
    have "of_int (round_half_even z) = z" by (simp only: k rhe_of_int)
    with lo d fin show ?thesis by simp
  next
    case False
    have "of_int m \<le> (2 ^ 53 :: rat)"
    proof -
      have "m \<le> 2 ^ 53" using m(2) by simp
      then have "(of_int m :: rat) \<le> of_int (2 ^ 53)" by (simp only: of_int_le_iff)
      then show ?thesis by simp
    qed
    then have "z \<le> 2 ^ 53 * pow2 e"
      unfolding m(1) by (rule mult_right_mono) simp
    also have "pow2 e \<le> pow2 0" using False by (intro pow2_mono) simp
    finally have "z \<le> of_int (2 ^ 53)" by (simp add: pow2_def)
    then have hi: "round_half_even z \<le> 2 ^ 53" by (rule rhe_le)
    with lo have "dbl (of_int (round_half_even z))" by (intro dbl_small_int) simp
    moreover have "(of_int (round_half_even z) :: rat) \<le> of_int (2 ^ 53)"
      using hi by (simp only: of_int_le_iff)
    then have "(of_int (round_half_even z) :: rat) < pow2 1024"
      by (intro small_less_pow2_1024) simp
    ultimately show ?thesis using lo by simp
  qed
qed

text \<open>The last two steps, \<^verbatim>\<open>int(round(x, 0))\<close>, on the product of two non-negative floats.\<close>

lemma int_round_product:
  assumes "0 \<le> a" and "0 \<le> b" and "py_int (py_round0 (fl (a * b))) = Inr p"
  shows "0 \<le> p \<and> dbl (of_int p) \<and> of_int p < pow2 1024"
proof -
  have "0 \<le> a * b" using assms(1,2) by simp
  from fl_nonneg [OF this] assms(3) obtain z where
    z: "fl (a * b) = PyFloat z" "0 \<le> z" "dbl z" "z < pow2 1024"
    by auto
  from rhe_dbl [OF z(2,3,4)] have r: "0 \<le> round_half_even z" by simp
  from assms(3) z(1) r have "p = round_half_even z" by simp
  with rhe_dbl [OF z(2,3,4)] show ?thesis by simp
qed

lemma period_ns_positive:
  assumes p: "period_ns f = Inr p" and f: "py_lt (PyInt 0) f"
  shows "0 \<le> p \<and> dbl (of_int p) \<and> of_int p < pow2 1024"
proof -
  have one: "to_float (PyInt 1) = Inr (PyFloat 1)"
    using to_float_int [of 1] dbl_small_int [of 1] small_less_pow2_1024 [of 1] by simp
  have q: "\<exists>q. py_truediv (PyInt 1) f = Inr q
             \<and> (q = PyInf \<or> (\<exists>a. q = PyFloat a \<and> 0 \<le> a))"
  proof (cases f)
    case (PyInt n)
    with f have n: "0 < n" by simp
    have d1: "dbl 1" using dbl_small_int [of 1] by simp
    have "(1 :: rat) / of_int n \<le> 1" using n by simp
    from fl_le [OF _ this d1] small_less_pow2_1024 [of 1] n
    obtain z where "fl (1 / of_int n) = PyFloat z" "0 \<le> z" by auto
    with PyInt n show ?thesis by (simp add: py_truediv_def)
  next
    case (PyFloat r)
    with f have r: "0 < r" by simp
    then have "0 \<le> 1 / r" by simp
    from fl_nonneg [OF this] r PyFloat one show ?thesis
      by (auto simp: py_truediv_def)
  next
    case PyInf
    with one show ?thesis by (simp add: py_truediv_def)
  next
    case PyNegInf
    with f show ?thesis by simp
  next
    case PyNaN
    with f show ?thesis by simp
  qed
  then obtain q where q: "py_truediv (PyInt 1) f = Inr q"
    "q = PyInf \<or> (\<exists>a. q = PyFloat a \<and> 0 \<le> a)" by blast
  from q(2) show ?thesis
  proof
    assume "q = PyInf"
    with p q(1) show ?thesis by (simp add: period_ns_def py_mul_def)
  next
    assume "\<exists>a. q = PyFloat a \<and> 0 \<le> a"
    then obtain a where a: "q = PyFloat a" "0 \<le> a" by blast
    from p q(1) a(1) have "py_int (py_round0 (fl (a * 1000000000))) = Inr p"
      by (simp add: period_ns_def py_mul_def)
    with a(2) show ?thesis by (intro int_round_product [of a 1000000000]) simp_all
  qed
qed

lemma duty_ns_in_range:
  assumes lo: "py_le (PyInt 0) c" and hi: "py_le c (PyInt 100)"
    and p: "0 \<le> p" "dbl (of_int p)" "of_int p < pow2 1024"
  shows "\<exists>d. duty_ns c p = Inr d \<and> 0 \<le> d \<and> d \<le> p"
proof -
  have d1: "dbl 1" using dbl_small_int [of 1] by simp
  have f1: "(1 :: rat) < pow2 1024" using small_less_pow2_1024 [of 1] by simp
  have hundred: "to_float (PyInt 100) = Inr (PyFloat 100)"
    using to_float_int [of 100] dbl_small_int [of 100] small_less_pow2_1024 [of 100] by simp
  have "\<exists>q. py_truediv c (PyInt 100) = Inr (PyFloat q) \<and> 0 \<le> q \<and> q \<le> 1"
  proof (cases c)
    case (PyInt n)
    with lo hi have n: "0 \<le> n" "n \<le> 100" by simp_all
    then have "0 \<le> (of_int n :: rat) / of_int 100" "(of_int n :: rat) / of_int 100 \<le> 1"
      by simp_all
    from fl_le [OF this d1 f1] PyInt show ?thesis
      by (auto simp: py_truediv_def)
  next
    case (PyFloat r)
    with lo hi have r: "0 \<le> r" "r \<le> 100" by simp_all
    then have "0 \<le> r / 100" "r / 100 \<le> 1" by simp_all
    from fl_le [OF this d1 f1] PyFloat hundred show ?thesis
      by (auto simp: py_truediv_def)
  next
    case PyInf
    with hi show ?thesis by simp
  next
    case PyNegInf
    with lo show ?thesis by simp
  next
    case PyNaN
    with lo show ?thesis by simp
  qed
  then obtain q where q: "py_truediv c (PyInt 100) = Inr (PyFloat q)" "0 \<le> q" "q \<le> 1"
    by blast
  have pf: "to_float (PyInt p) = Inr (PyFloat (of_int p))"
    using p by (rule to_float_int)
  have p0: "(0 :: rat) \<le> of_int p" using p(1) by simp
  have "0 \<le> q * of_int p" using q(2) p0 by simp
  moreover have "q * of_int p \<le> 1 * of_int p"
    using q(3) p0 by (rule mult_right_mono)
  then have "q * of_int p \<le> of_int p" by simp
  ultimately obtain z where z: "fl (q * of_int p) = PyFloat z" "0 \<le> z" "z \<le> of_int p"
    using fl_le [OF _ _ p(2,3)] by blast
  have "of_int 0 \<le> z" using z(2) by simp
  then have r0: "0 \<le> round_half_even z" by (rule rhe_ge)
  have r1: "round_half_even z \<le> p" using z(3) by (rule rhe_le)
  have "duty_ns c p = Inr (round_half_even z)"
    using q(1) pf z(1) r0 by (simp add: duty_ns_def py_mul_def)
  with r0 r1 show ?thesis by blast
qed

section \<open>Properties of the PWM class\<close>

text \<open>
  The values of the scenario "1000 Hz, 50 percent, then 500 Hz", computed with the
  arithmetic above.
\<close>

lemma period_ns_1000:
  "period_ns (PyInt 1000) = Inr 1000000" "period_ns (PyFloat 1000) = Inr 1000000"
  by code_simp+

lemma period_ns_500:
  "period_ns (PyInt 500) = Inr 2000000" "period_ns (PyFloat 500) = Inr 2000000"
  by code_simp+

lemma duty_ns_50_of_2000000:
  "duty_ns (PyInt 50) 2000000 = Inr 1000000" "duty_ns (PyFloat 50) 2000000 = Inr 1000000"
  by code_simp+

lemma duty_ns_150_of_2000000: "duty_ns (PyInt 150) 2000000 = Inr 3000000"
  by code_simp

lemma out_of_range_iff:
  "\<not> (py_le (PyInt 0) p \<and> py_le p (PyInt 100))
     \<longleftrightarrow> py_lt p (PyInt 0) \<or> py_lt (PyInt 100) p \<or> p = PyNaN"
  by (cases p) auto

text \<open>
  Claim C5, as the code has it. \<^verbatim>\<open>PWM.duty_cycle(percent)\<close> raises the out-of-range
  exception exactly when \<open>percent < 0\<close>, or \<open>percent > 100\<close>, or \<open>percent\<close> is NaN, that is when
  Python's \<^verbatim>\<open>0 <= percent <= 100\<close> is false; then the object and the world (trace and device
  included) are as before. For \<open>0 \<le> percent \<le> 100\<close> it stores the percentage in the object
  and makes the call \<^verbatim>\<open>sysfs.PWM_Duty_Cycle_Percent(chip, pin, percent)\<close>, the write of the
  duty-cycle attribute: it returns when that call returns and raises what that call raises.
\<close>

theorem duty_cycle_range:
  "((\<exists>x. fst (duty_cycle io self percent w) = Inl (Duty_cycle_out_of_bounds x))
      \<longleftrightarrow> py_lt percent (PyInt 0) \<or> py_lt (PyInt 100) percent \<or> percent = PyNaN)
   \<and> (py_le (PyInt 0) percent \<and> py_le percent (PyInt 100) \<longrightarrow>
        duty_cycle io self percent w =
          (case io (device w) (sysfs_PWM_Duty_Cycle_Percent (chip self) (pin self) percent) of
             (None, d') \<Rightarrow>
               (Inr (), self\<lparr>duty_cycle_percent := percent\<rparr>,
                w\<lparr>trace := trace w @
                     [Call (sysfs_PWM_Duty_Cycle_Percent (chip self) (pin self) percent) None],
                  device := d'\<rparr>)
           | (Some e, d') \<Rightarrow>
               (Inl (Raised e), self\<lparr>duty_cycle_percent := percent\<rparr>,
                w\<lparr>trace := trace w @
                     [Call (sysfs_PWM_Duty_Cycle_Percent (chip self) (pin self) percent) (Some e)],
                  device := d'\<rparr>)))
   \<and> (py_lt percent (PyInt 0) \<or> py_lt (PyInt 100) percent \<or> percent = PyNaN \<longrightarrow>
        duty_cycle io self percent w = (Inl (Duty_cycle_out_of_bounds percent), self, w))"
proof (intro conjI impI)
  show "(\<exists>x. fst (duty_cycle io self percent w) = Inl (Duty_cycle_out_of_bounds x))
      \<longleftrightarrow> py_lt percent (PyInt 0) \<or> py_lt (PyInt 100) percent \<or> percent = PyNaN"
    unfolding out_of_range_iff [symmetric]
    by (auto simp: duty_cycle_def call_def Let_def split: prod.splits option.splits)
next
  assume "py_le (PyInt 0) percent \<and> py_le percent (PyInt 100)"
  then show "duty_cycle io self percent w =
          (case io (device w) (sysfs_PWM_Duty_Cycle_Percent (chip self) (pin self) percent) of
             (None, d') \<Rightarrow>
               (Inr (), self\<lparr>duty_cycle_percent := percent\<rparr>,
                w\<lparr>trace := trace w @
                     [Call (sysfs_PWM_Duty_Cycle_Percent (chip self) (pin self) percent) None],
                  device := d'\<rparr>)
           | (Some e, d') \<Rightarrow>
               (Inl (Raised e), self\<lparr>duty_cycle_percent := percent\<rparr>,
                w\<lparr>trace := trace w @
                     [Call (sysfs_PWM_Duty_Cycle_Percent (chip self) (pin self) percent) (Some e)],
                  device := d'\<rparr>))"
    by (auto simp: duty_cycle_def call_def Let_def split: prod.splits option.splits)
next
  assume "py_lt percent (PyInt 0) \<or> py_lt (PyInt 100) percent \<or> percent = PyNaN"
  then have "\<not> (py_le (PyInt 0) percent \<and> py_le percent (PyInt 100))"
    by (simp only: out_of_range_iff)
  then show "duty_cycle io self percent w = (Inl (Duty_cycle_out_of_bounds percent), self, w)"
    by (auto simp: duty_cycle_def)
qed

theorem duty_cycle_range_witness:
  "duty_cycle scripted
     \<lparr>chip = 0, pin = 0, frequency = PyInt 1000, duty_cycle_percent = PyInt 50,
        invert_polarity = False\<rparr>
     (PyInt 150) (world0 []) =
   (Inl (Duty_cycle_out_of_bounds (PyInt 150)),
    \<lparr>chip = 0, pin = 0, frequency = PyInt 1000, duty_cycle_percent = PyInt 50,
       invert_polarity = False\<rparr>,
    world0 [])
   \<and> duty_cycle scripted
     \<lparr>chip = 0, pin = 0, frequency = PyInt 1000, duty_cycle_percent = PyInt 50,
        invert_polarity = False\<rparr>
     (PyFloat (75 / 2)) (world0 []) =
   (Inr (),
    \<lparr>chip = 0, pin = 0, frequency = PyInt 1000, duty_cycle_percent = PyFloat (75 / 2),
       invert_polarity = False\<rparr>,
    \<lparr>gpio_warnings = True, mode = None, exports = [],
       trace = [Call (sysfs_PWM_Duty_Cycle_Percent 0 0 (PyFloat (75 / 2))) None],
       device = []\<rparr>)"
  using duty_cycle_range [where io = scripted and percent = "PyInt 150" and w = "world0 []"
      and self = "\<lparr>chip = 0, pin = 0, frequency = PyInt 1000, duty_cycle_percent = PyInt 50,
                     invert_polarity = False\<rparr>"]
    duty_cycle_range [where io = scripted and percent = "PyFloat (75 / 2)" and w = "world0 []"
      and self = "\<lparr>chip = 0, pin = 0, frequency = PyInt 1000, duty_cycle_percent = PyInt 50,
                     invert_polarity = False\<rparr>"]
  by (simp add: scripted_def world0_def)

text \<open>
  Claim C5 as stated says "if and only if \<open>percent < 0\<close> or \<open>percent > 100\<close>". For
  \<^verbatim>\<open>float('nan')\<close> the out-of-range exception is raised, and NaN is neither below 0 nor
  above 100.
\<close>

theorem duty_cycle_nan_counterexample:
  "duty_cycle scripted
     \<lparr>chip = 0, pin = 0, frequency = PyInt 1000, duty_cycle_percent = PyInt 50,
        invert_polarity = False\<rparr>
     PyNaN (world0 []) =
   (Inl (Duty_cycle_out_of_bounds PyNaN),
    \<lparr>chip = 0, pin = 0, frequency = PyInt 1000, duty_cycle_percent = PyInt 50,
       invert_polarity = False\<rparr>,
    world0 [])
   \<and> \<not> py_lt PyNaN (PyInt 0) \<and> \<not> py_lt (PyInt 100) PyNaN"
  by (simp add: duty_cycle_def)

text \<open>
  Claim C10. In \<^verbatim>\<open>PWM.duty_cycle\<close>, for a percentage in range, the field
  \<open>duty_cycle_percent\<close> is assigned before the call into sysfs: when that call raises, the
  exception propagates and the object keeps the new percentage.
\<close>

theorem duty_cycle_no_rollback:
  assumes "py_le (PyInt 0) percent" and "py_le percent (PyInt 100)"
    and "io (device w) (sysfs_PWM_Duty_Cycle_Percent (chip self) (pin self) percent) = (Some e, d')"
  shows "duty_cycle io self percent w =
           (Inl (Raised e), self\<lparr>duty_cycle_percent := percent\<rparr>,
            w\<lparr>trace := trace w @ [Call (sysfs_PWM_Duty_Cycle_Percent (chip self) (pin self) percent) (Some e)],
              device := d'\<rparr>)"
  using assms by (simp add: duty_cycle_def call_def Let_def)

theorem duty_cycle_no_rollback_witness:
  "duty_cycle scripted
     \<lparr>chip = 0, pin = 0, frequency = PyInt 1000, duty_cycle_percent = PyInt 50,
        invert_polarity = False\<rparr>
     (PyInt 75) (world0 [Some (OSError 5)]) =
   (Inl (Raised (OSError 5)),
    \<lparr>chip = 0, pin = 0, frequency = PyInt 1000, duty_cycle_percent = PyInt 75,
       invert_polarity = False\<rparr>,
    \<lparr>gpio_warnings = True, mode = None, exports = [],
       trace = [Call (sysfs_PWM_Duty_Cycle_Percent 0 0 (PyInt 75)) (Some (OSError 5))],
       device = []\<rparr>)"
  using duty_cycle_no_rollback [where io = scripted and percent = "PyInt 75"
      and w = "world0 [Some (OSError 5)]" and e = "OSError 5" and d' = "[]"
      and self = "\<lparr>chip = 0, pin = 0, frequency = PyInt 1000, duty_cycle_percent = PyInt 50,
                     invert_polarity = False\<rparr>"]
  by (simp add: scripted_def world0_def)

text \<open>
  Claim C1, as the code has it. \<open>p\<close>, \<open>d\<close> and \<open>old\<close> are the new period, the new duty cycle
  and the old period as the code computes them. First conjunct, for every device: when
  \<open>p\<close> is strictly greater than \<open>old\<close> the period is written first and the duty cycle second;
  otherwise the duty cycle is written first and the period second; the second write is
  issued exactly when the first returned. Second conjunct: when the arithmetic raises
  (\<^verbatim>\<open>ZeroDivisionError\<close>, \<^verbatim>\<open>OverflowError\<close>, \<^verbatim>\<open>ValueError\<close>), nothing is written. Third
  conjunct, on the control surface \<open>pwm_surface\<close> that rejects a write leaving the duty cycle
  above the period: when the stored percentage is within 0..100, the new frequency is
  positive, the period attribute is the period of the stored frequency and the duty-cycle
  attribute does not exceed it, then either the arithmetic of the new period raises before
  any write, or no write is rejected, the duty cycle written does not exceed the period
  written, and the attributes end as the new period and the new duty cycle.
\<close>

theorem change_frequency_write_order:
  fixes io :: "'d io" and w :: "'d world" and v :: "pwm_regs world"
  shows
  "(period_ns new_frequency = Inr p \<and> duty_ns (duty_cycle_percent self) p = Inr d
      \<and> period_ns (frequency self) = Inr old \<longrightarrow>
     (let P = sysfs_PWM_Period (chip self) (pin self) p;
          D = sysfs_PWM_Duty_Cycle (chip self) (pin self) d;
          w' = snd (snd (change_frequency io self new_frequency w))
      in if old < p
         then (\<exists>e. trace w' = trace w @ [Call P (Some e)])
            \<or> (\<exists>r. trace w' = trace w @ [Call P None, Call D r])
         else (\<exists>e. trace w' = trace w @ [Call D (Some e)])
            \<or> (\<exists>r. trace w' = trace w @ [Call D None, Call P r])))
   \<and> ((\<exists>e. period_ns new_frequency = Inl e)
        \<or> (\<exists>q e. period_ns new_frequency = Inr q \<and> duty_ns (duty_cycle_percent self) q = Inl e)
        \<or> (\<exists>e. period_ns (frequency self) = Inl e) \<longrightarrow>
      snd (snd (change_frequency io self new_frequency w)) = w)
   \<and> (py_le (PyInt 0) (duty_cycle_percent self) \<and> py_le (duty_cycle_percent self) (PyInt 100)
        \<and> py_lt (PyInt 0) new_frequency
        \<and> period_ns (frequency self) = Inr (period_reg (device v))
        \<and> duty_reg (device v) \<le> period_reg (device v) \<longrightarrow>
      (\<exists>e. period_ns new_frequency = Inl e
            \<and> change_frequency pwm_surface self new_frequency v = (Inl e, self, v))
      \<or> (\<exists>q c. period_ns new_frequency = Inr q
            \<and> duty_ns (duty_cycle_percent self) q = Inr c \<and> c \<le> q
            \<and> change_frequency pwm_surface self new_frequency v =
                (Inr (), self\<lparr>frequency := new_frequency\<rparr>,
                 v\<lparr>trace := trace v @
                      (if period_reg (device v) < q
                       then [Call (sysfs_PWM_Period (chip self) (pin self) q) None,
                             Call (sysfs_PWM_Duty_Cycle (chip self) (pin self) c) None]
                       else [Call (sysfs_PWM_Duty_Cycle (chip self) (pin self) c) None,
                             Call (sysfs_PWM_Period (chip self) (pin self) q) None]),
                   device := \<lparr>period_reg = q, duty_reg = c\<rparr>\<rparr>)))"
proof (intro conjI impI)
  assume "period_ns new_frequency = Inr p \<and> duty_ns (duty_cycle_percent self) p = Inr d
      \<and> period_ns (frequency self) = Inr old"
  then show "let P = sysfs_PWM_Period (chip self) (pin self) p;
          D = sysfs_PWM_Duty_Cycle (chip self) (pin self) d;
          w' = snd (snd (change_frequency io self new_frequency w))
      in if old < p
         then (\<exists>e. trace w' = trace w @ [Call P (Some e)])
            \<or> (\<exists>r. trace w' = trace w @ [Call P None, Call D r])
         else (\<exists>e. trace w' = trace w @ [Call D (Some e)])
            \<or> (\<exists>r. trace w' = trace w @ [Call D None, Call P r])"
    by (auto simp: change_frequency_def call_def Let_def split: prod.splits option.splits)
next
  assume "(\<exists>e. period_ns new_frequency = Inl e)
        \<or> (\<exists>q e. period_ns new_frequency = Inr q \<and> duty_ns (duty_cycle_percent self) q = Inl e)
        \<or> (\<exists>e. period_ns (frequency self) = Inl e)"
  then show "snd (snd (change_frequency io self new_frequency w)) = w"
    by (auto simp: change_frequency_def split: sum.splits)
next
  assume h: "py_le (PyInt 0) (duty_cycle_percent self) \<and> py_le (duty_cycle_percent self) (PyInt 100)
        \<and> py_lt (PyInt 0) new_frequency
        \<and> period_ns (frequency self) = Inr (period_reg (device v))
        \<and> duty_reg (device v) \<le> period_reg (device v)"
  show "(\<exists>e. period_ns new_frequency = Inl e
            \<and> change_frequency pwm_surface self new_frequency v = (Inl e, self, v))
      \<or> (\<exists>q c. period_ns new_frequency = Inr q
            \<and> duty_ns (duty_cycle_percent self) q = Inr c \<and> c \<le> q
            \<and> change_frequency pwm_surface self new_frequency v =
                (Inr (), self\<lparr>frequency := new_frequency\<rparr>,
                 v\<lparr>trace := trace v @
                      (if period_reg (device v) < q
                       then [Call (sysfs_PWM_Period (chip self) (pin self) q) None,
                             Call (sysfs_PWM_Duty_Cycle (chip self) (pin self) c) None]
                       else [Call (sysfs_PWM_Duty_Cycle (chip self) (pin self) c) None,
                             Call (sysfs_PWM_Period (chip self) (pin self) q) None]),
                   device := \<lparr>period_reg = q, duty_reg = c\<rparr>\<rparr>))"
  proof (cases "period_ns new_frequency")
    case (Inl e)
    then show ?thesis by (simp add: change_frequency_def)
  next
    case (Inr q)
    from h have f: "py_lt (PyInt 0) new_frequency" by simp
    from period_ns_positive [OF Inr f]
    have q: "0 \<le> q" "dbl (of_int q)" "of_int q < pow2 1024" by simp_all
    from h duty_ns_in_range [OF _ _ q] obtain c where
      c: "duty_ns (duty_cycle_percent self) q = Inr c" "0 \<le> c" "c \<le> q"
      by blast
    have regs: "\<And>r a b. r\<lparr>period_reg := a, duty_reg := b\<rparr> = \<lparr>period_reg = a, duty_reg = b\<rparr>"
               "\<And>r a b. r\<lparr>duty_reg := b, period_reg := a\<rparr> = \<lparr>period_reg = a, duty_reg = b\<rparr>"
      by simp_all
    have "change_frequency pwm_surface self new_frequency v =
                (Inr (), self\<lparr>frequency := new_frequency\<rparr>,
                 v\<lparr>trace := trace v @
                      (if period_reg (device v) < q
                       then [Call (sysfs_PWM_Period (chip self) (pin self) q) None,
                             Call (sysfs_PWM_Duty_Cycle (chip self) (pin self) c) None]
                       else [Call (sysfs_PWM_Duty_Cycle (chip self) (pin self) c) None,
                             Call (sysfs_PWM_Period (chip self) (pin self) q) None]),
                   device := \<lparr>period_reg = q, duty_reg = c\<rparr>\<rparr>)"
      using h Inr c
      by (auto simp: change_frequency_def call_def pwm_surface_def regs)
    with Inr c show ?thesis by blast
  qed
qed

lemma period_ns_0: "period_ns (PyInt 0) = Inl ZeroDivisionError"
  by (simp add: period_ns_def py_truediv_def)

theorem change_frequency_write_order_witness:
  "trace (snd (snd (change_frequency scripted
       \<lparr>chip = 0, pin = 0, frequency = PyInt 1000, duty_cycle_percent = PyInt 50,
          invert_polarity = False\<rparr>
       (PyInt 500) (world0 [])))) =
     [Call (sysfs_PWM_Period 0 0 2000000) None, Call (sysfs_PWM_Duty_Cycle 0 0 1000000) None]
   \<and> snd (snd (change_frequency scripted
       \<lparr>chip = 0, pin = 0, frequency = PyInt 1000, duty_cycle_percent = PyInt 50,
          invert_polarity = False\<rparr>
       (PyInt 0) (world0 []))) = world0 []
   \<and> change_frequency pwm_surface
       \<lparr>chip = 0, pin = 0, frequency = PyInt 1000, duty_cycle_percent = PyInt 50,
          invert_polarity = False\<rparr>
       (PyInt 500) (world0 \<lparr>period_reg = 1000000, duty_reg = 500000\<rparr>) =
     (Inr (),
      \<lparr>chip = 0, pin = 0, frequency = PyInt 500, duty_cycle_percent = PyInt 50,
         invert_polarity = False\<rparr>,
      \<lparr>gpio_warnings = True, mode = None, exports = [],
         trace = [Call (sysfs_PWM_Period 0 0 2000000) None,
                  Call (sysfs_PWM_Duty_Cycle 0 0 1000000) None],
         device = \<lparr>period_reg = 2000000, duty_reg = 1000000\<rparr>\<rparr>)"
proof -
  let ?self = "\<lparr>chip = 0, pin = 0, frequency = PyInt 1000, duty_cycle_percent = PyInt 50,
                 invert_polarity = False\<rparr>"
  note t = change_frequency_write_order [where self = ?self and io = scripted]
  have run: "trace (snd (snd (change_frequency scripted ?self (PyInt 500) (world0 [])))) =
     [Call (sysfs_PWM_Period 0 0 2000000) None, Call (sysfs_PWM_Duty_Cycle 0 0 1000000) None]"
    by (simp add: change_frequency_def period_ns_1000 period_ns_500 duty_ns_50_of_2000000
                  call_def scripted_def world0_def)
  from t [where new_frequency = "PyInt 500" and p = 2000000 and d = 1000000 and old = 1000000
            and w = "world0 []", THEN conjunct1]
  have 1: "trace (snd (snd (change_frequency scripted ?self (PyInt 500) (world0 [])))) =
     [Call (sysfs_PWM_Period 0 0 2000000) None, Call (sysfs_PWM_Duty_Cycle 0 0 1000000) None]"
    using run by (simp add: period_ns_1000 period_ns_500 duty_ns_50_of_2000000)
  from t [where new_frequency = "PyInt 0" and w = "world0 []", THEN conjunct2, THEN conjunct1]
  have 2: "snd (snd (change_frequency scripted ?self (PyInt 0) (world0 []))) = world0 []"
    by (simp add: period_ns_0)
  from t [where new_frequency = "PyInt 500"
            and v = "world0 \<lparr>period_reg = 1000000, duty_reg = 500000\<rparr>",
          THEN conjunct2, THEN conjunct2]
  have 3: "change_frequency pwm_surface ?self (PyInt 500)
             (world0 \<lparr>period_reg = 1000000, duty_reg = 500000\<rparr>) =
     (Inr (),
      \<lparr>chip = 0, pin = 0, frequency = PyInt 500, duty_cycle_percent = PyInt 50,
         invert_polarity = False\<rparr>,
      \<lparr>gpio_warnings = True, mode = None, exports = [],
         trace = [Call (sysfs_PWM_Period 0 0 2000000) None,
                  Call (sysfs_PWM_Duty_Cycle 0 0 1000000) None],
         device = \<lparr>period_reg = 2000000, duty_reg = 1000000\<rparr>\<rparr>)"
    by (simp add: period_ns_1000 period_ns_500 duty_ns_50_of_2000000 world0_def)
  from 1 2 3 show ?thesis by simp
qed

text \<open>
  Claim C1 as stated says that for every call the duty-cycle length never exceeds the
  period length. \<^verbatim>\<open>PWM(0, 0, 1000, 150)\<close> is constructed without complaint; its
  \<^verbatim>\<open>change_frequency(500)\<close> writes the period 2,000,000 and then the duty cycle 3,000,000,
  which the control surface rejects.
\<close>

theorem change_frequency_percent_150_counterexample:
  "PWM_init scripted 0 0 (PyInt 1000) (PyInt 150) False (world0 []) =
     (Inr \<lparr>chip = 0, pin = 0, frequency = PyInt 1000, duty_cycle_percent = PyInt 150,
            invert_polarity = False\<rparr>,
      \<lparr>gpio_warnings = True, mode = None, exports = [],
         trace = [Call (sysfs_PWM_Export 0 0) None, Call (sysfs_PWM_Polarity 0 0 False) None,
                  Call (sysfs_PWM_Enable 0 0) None,
                  Call (sysfs_PWM_Frequency 0 0 (PyInt 1000)) None],
         device = []\<rparr>)
   \<and> change_frequency pwm_surface
       \<lparr>chip = 0, pin = 0, frequency = PyInt 1000, duty_cycle_percent = PyInt 150,
          invert_polarity = False\<rparr>
       (PyInt 500) (world0 \<lparr>period_reg = 1000000, duty_reg = 0\<rparr>) =
     (Inl (Raised (OSError 22)),
      \<lparr>chip = 0, pin = 0, frequency = PyInt 1000, duty_cycle_percent = PyInt 150,
         invert_polarity = False\<rparr>,
      \<lparr>gpio_warnings = True, mode = None, exports = [],
         trace = [Call (sysfs_PWM_Period 0 0 2000000) None,
                  Call (sysfs_PWM_Duty_Cycle 0 0 3000000) (Some (OSError 22))],
         device = \<lparr>period_reg = 2000000, duty_reg = 0\<rparr>\<rparr>)"
  by (simp add: PWM_init_def PWM_init_try_def change_frequency_def period_ns_1000 period_ns_500
                duty_ns_150_of_2000000 call_def scripted_def pwm_surface_def world0_def)

text \<open>
  Claim C4. \<^verbatim>\<open>PWM.change_frequency\<close> assigns \<open>frequency\<close> in its last statement. When it
  returns, the period write and the duty-cycle write, with the values the code computes,
  have both returned and the object differs from the old one in the frequency only; when
  it raises, or when one of the calls it issued raised, the object is unchanged. And it
  does return, with the new frequency stored, when the arithmetic does not raise and the
  device accepts every call.
\<close>

theorem change_frequency_commits_last:
  "(let r = fst (change_frequency io self new_frequency w);
        self' = fst (snd (change_frequency io self new_frequency w));
        w' = snd (snd (change_frequency io self new_frequency w))
    in \<exists>xs. trace w' = trace w @ xs
         \<and> (r = Inr () \<longrightarrow>
              self' = self\<lparr>frequency := new_frequency\<rparr>
              \<and> (\<exists>p d. period_ns new_frequency = Inr p
                     \<and> duty_ns (duty_cycle_percent self) p = Inr d
                     \<and> set xs = {Call (sysfs_PWM_Period (chip self) (pin self) p) None,
                                 Call (sysfs_PWM_Duty_Cycle (chip self) (pin self) d) None}))
         \<and> (r \<noteq> Inr () \<longrightarrow> self' = self)
         \<and> ((\<exists>c e. Call c (Some e) \<in> set xs) \<longrightarrow> self' = self))
   \<and> ((\<forall>dv c. fst (io dv c) = None)
        \<and> period_ns new_frequency = Inr p \<and> duty_ns (duty_cycle_percent self) p = Inr d
        \<and> period_ns (frequency self) = Inr old \<longrightarrow>
      fst (change_frequency io self new_frequency w) = Inr ()
      \<and> fst (snd (change_frequency io self new_frequency w)) = self\<lparr>frequency := new_frequency\<rparr>)"
proof (intro conjI impI)
  show "let r = fst (change_frequency io self new_frequency w);
        self' = fst (snd (change_frequency io self new_frequency w));
        w' = snd (snd (change_frequency io self new_frequency w))
    in \<exists>xs. trace w' = trace w @ xs
         \<and> (r = Inr () \<longrightarrow>
              self' = self\<lparr>frequency := new_frequency\<rparr>
              \<and> (\<exists>p d. period_ns new_frequency = Inr p
                     \<and> duty_ns (duty_cycle_percent self) p = Inr d
                     \<and> set xs = {Call (sysfs_PWM_Period (chip self) (pin self) p) None,
                                 Call (sysfs_PWM_Duty_Cycle (chip self) (pin self) d) None}))
         \<and> (r \<noteq> Inr () \<longrightarrow> self' = self)
         \<and> ((\<exists>c e. Call c (Some e) \<in> set xs) \<longrightarrow> self' = self)"
    by (auto simp: change_frequency_def call_def Let_def
             split: prod.splits option.splits if_splits sum.splits)
next
  assume h: "(\<forall>dv c. fst (io dv c) = None)
        \<and> period_ns new_frequency = Inr p \<and> duty_ns (duty_cycle_percent self) p = Inr d
        \<and> period_ns (frequency self) = Inr old"
  then have acc: "\<And>dv c. \<exists>dv'. io dv c = (None, dv')"
    by (metis prod.collapse)
  from h show "fst (change_frequency io self new_frequency w) = Inr ()"
    using acc by (auto simp: change_frequency_def call_def split: prod.splits option.splits)
       (metis fst_conv option.distinct(1))+
  from h show "fst (snd (change_frequency io self new_frequency w)) = self\<lparr>frequency := new_frequency\<rparr>"
    using acc by (auto simp: change_frequency_def call_def split: prod.splits option.splits)
       (metis fst_conv option.distinct(1))+
qed

theorem change_frequency_commits_last_witness:
  "fst (change_frequency scripted
       \<lparr>chip = 0, pin = 0, frequency = PyInt 1000, duty_cycle_percent = PyInt 50,
          invert_polarity = False\<rparr>
       (PyInt 500) (world0 [None, Some (OSError 5)])) = Inl (Raised (OSError 5))
   \<and> frequency (fst (snd (change_frequency scripted
       \<lparr>chip = 0, pin = 0, frequency = PyInt 1000, duty_cycle_percent = PyInt 50,
          invert_polarity = False\<rparr>
       (PyInt 500) (world0 [None, Some (OSError 5)])))) = PyInt 1000
   \<and> fst (change_frequency accepting
       \<lparr>chip = 0, pin = 0, frequency = PyInt 1000, duty_cycle_percent = PyInt 50,
          invert_polarity = False\<rparr>
       (PyInt 500) (world0 ())) = Inr ()
   \<and> frequency (fst (snd (change_frequency accepting
       \<lparr>chip = 0, pin = 0, frequency = PyInt 1000, duty_cycle_percent = PyInt 50,
          invert_polarity = False\<rparr>
       (PyInt 500) (world0 ())))) = PyInt 500"
proof -
  let ?self = "\<lparr>chip = 0, pin = 0, frequency = PyInt 1000, duty_cycle_percent = PyInt 50,
                 invert_polarity = False\<rparr>"
  have bad: "fst (change_frequency scripted ?self (PyInt 500) (world0 [None, Some (OSError 5)]))
               = Inl (Raised (OSError 5))"
    by (simp add: change_frequency_def period_ns_1000 period_ns_500 duty_ns_50_of_2000000
                  world0_def call_def scripted_def)
  from change_frequency_commits_last
         [where io = scripted and self = ?self and new_frequency = "PyInt 500"
            and w = "world0 [None, Some (OSError 5)]", THEN conjunct1] bad
  have 1: "fst (snd (change_frequency scripted ?self (PyInt 500)
                       (world0 [None, Some (OSError 5)]))) = ?self"
    by (auto simp: Let_def)
  have acc: "\<forall>dv c. fst (accepting dv c) = None"
    by (simp add: accepting_def)
  from change_frequency_commits_last
         [where io = accepting and self = ?self and new_frequency = "PyInt 500"
            and w = "world0 ()" and p = 2000000 and d = 1000000 and old = 1000000,
          THEN conjunct2] acc
  have 2: "fst (change_frequency accepting ?self (PyInt 500) (world0 ())) = Inr ()
           \<and> fst (snd (change_frequency accepting ?self (PyInt 500) (world0 ())))
               = ?self\<lparr>frequency := PyInt 500\<rparr>"
    by (simp add: period_ns_1000 period_ns_500 duty_ns_50_of_2000000)
  show ?thesis using bad 1 2 by simp
qed

lemma PWM_init_self:
  "PWM_init io c n f p invert w = (Inr self, w1) \<Longrightarrow>
     self = \<lparr>chip = c, pin = n, frequency = f, duty_cycle_percent = p, invert_polarity = invert\<rparr>"
  by (auto simp: PWM_init_def Let_def split: prod.splits option.splits ext_exception.splits if_splits)

text \<open>
  Claim C2, as the code has it. For a PWM object constructed at 1000 Hz and 50 percent
  (each number an \<^verbatim>\<open>int\<close> or a \<^verbatim>\<open>float\<close>),
  \<^verbatim>\<open>change_frequency(500)\<close> writes the period 2,000,000 ns first and, when that write
  returns, the duty cycle 1,000,000 ns: the period of 500 Hz is 2,000,000 ns, and half of
  it is 1,000,000 ns.
\<close>

theorem change_frequency_1000_to_500:
  assumes "PWM_init io c n f0 percent invert w = (Inr self, w1)"
    and "f0 = PyInt 1000 \<or> f0 = PyFloat 1000"
    and "percent = PyInt 50 \<or> percent = PyFloat 50"
    and "f1 = PyInt 500 \<or> f1 = PyFloat 500"
  shows "(\<exists>e. trace (snd (snd (change_frequency io self f1 w1))) =
               trace w1 @ [Call (sysfs_PWM_Period c n 2000000) (Some e)])
       \<or> (\<exists>r. trace (snd (snd (change_frequency io self f1 w1))) =
               trace w1 @ [Call (sysfs_PWM_Period c n 2000000) None,
                           Call (sysfs_PWM_Duty_Cycle c n 1000000) r])"
  using PWM_init_self [OF assms(1)] assms(2,3,4)
  by (auto simp: period_ns_1000 period_ns_500 duty_ns_50_of_2000000 change_frequency_def
                 call_def split: prod.splits option.splits)

theorem change_frequency_1000_to_500_witness:
  "PWM_init scripted 0 0 (PyInt 1000) (PyInt 50) False (world0 []) =
     (Inr \<lparr>chip = 0, pin = 0, frequency = PyInt 1000, duty_cycle_percent = PyInt 50,
            invert_polarity = False\<rparr>,
      \<lparr>gpio_warnings = True, mode = None, exports = [],
         trace = [Call (sysfs_PWM_Export 0 0) None, Call (sysfs_PWM_Polarity 0 0 False) None,
                  Call (sysfs_PWM_Enable 0 0) None,
                  Call (sysfs_PWM_Frequency 0 0 (PyInt 1000)) None],
         device = []\<rparr>)
   \<and> trace (snd (snd (change_frequency scripted
        \<lparr>chip = 0, pin = 0, frequency = PyInt 1000, duty_cycle_percent = PyInt 50,
           invert_polarity = False\<rparr>
        (PyInt 500)
        \<lparr>gpio_warnings = True, mode = None, exports = [],
           trace = [Call (sysfs_PWM_Export 0 0) None, Call (sysfs_PWM_Polarity 0 0 False) None,
                    Call (sysfs_PWM_Enable 0 0) None,
                    Call (sysfs_PWM_Frequency 0 0 (PyInt 1000)) None],
           device = []\<rparr>))) =
     [Call (sysfs_PWM_Export 0 0) None, Call (sysfs_PWM_Polarity 0 0 False) None,
      Call (sysfs_PWM_Enable 0 0) None, Call (sysfs_PWM_Frequency 0 0 (PyInt 1000)) None,
      Call (sysfs_PWM_Period 0 0 2000000) None, Call (sysfs_PWM_Duty_Cycle 0 0 1000000) None]"
proof -
  have init: "PWM_init scripted 0 0 (PyInt 1000) (PyInt 50) False (world0 []) =
     (Inr \<lparr>chip = 0, pin = 0, frequency = PyInt 1000, duty_cycle_percent = PyInt 50,
            invert_polarity = False\<rparr>,
      \<lparr>gpio_warnings = True, mode = None, exports = [],
         trace = [Call (sysfs_PWM_Export 0 0) None, Call (sysfs_PWM_Polarity 0 0 False) None,
                  Call (sysfs_PWM_Enable 0 0) None,
                  Call (sysfs_PWM_Frequency 0 0 (PyInt 1000)) None],
         device = []\<rparr>)"
    by (simp add: PWM_init_def PWM_init_try_def call_def scripted_def world0_def)
  have ok: "fst (change_frequency scripted
        \<lparr>chip = 0, pin = 0, frequency = PyInt 1000, duty_cycle_percent = PyInt 50,
           invert_polarity = False\<rparr>
        (PyInt 500)
        \<lparr>gpio_warnings = True, mode = None, exports = [],
           trace = [Call (sysfs_PWM_Export 0 0) None, Call (sysfs_PWM_Polarity 0 0 False) None,
                    Call (sysfs_PWM_Enable 0 0) None,
                    Call (sysfs_PWM_Frequency 0 0 (PyInt 1000)) None],
           device = []\<rparr>) = Inr ()"
    by (simp add: change_frequency_def period_ns_1000 period_ns_500 duty_ns_50_of_2000000
                  call_def scripted_def)
  from change_frequency_1000_to_500 [OF init, where ?f1.0 = "PyInt 500"] ok init show ?thesis
    by (auto simp: change_frequency_def period_ns_1000 period_ns_500 duty_ns_50_of_2000000
                   call_def scripted_def
             split: prod.splits option.splits if_splits)
qed

text \<open>
  Claim C2 as stated gives 250,000,000 ns for the duty cycle written. On a device that
  accepts every call the writes are the period 2,000,000 and the duty cycle 1,000,000; no
  duty cycle of 250,000,000 is written.
\<close>

theorem change_frequency_500_duty_counterexample:
  "trace (snd (snd (change_frequency scripted
        \<lparr>chip = 0, pin = 0, frequency = PyInt 1000, duty_cycle_percent = PyInt 50,
           invert_polarity = False\<rparr>
        (PyInt 500) (world0 [])))) =
     [Call (sysfs_PWM_Period 0 0 2000000) None, Call (sysfs_PWM_Duty_Cycle 0 0 1000000) None]
   \<and> Call (sysfs_PWM_Duty_Cycle 0 0 250000000) None \<notin>
       set (trace (snd (snd (change_frequency scripted
        \<lparr>chip = 0, pin = 0, frequency = PyInt 1000, duty_cycle_percent = PyInt 50,
           invert_polarity = False\<rparr>
        (PyInt 500) (world0 [])))))"
  by (simp add: change_frequency_def period_ns_1000 period_ns_500 duty_ns_50_of_2000000
                world0_def call_def scripted_def)

text \<open>
  Claim C3. When the first \<^verbatim>\<open>sysfs.PWM_Export\<close> raises errno 16, the handler of
  \<^verbatim>\<open>PWM.__init__\<close> warns, unexports and exports again, and the constructor returns: the
  polarity, enable and frequency calls of the \<^verbatim>\<open>try\<close> block are never issued. When nothing
  raises, the four calls are issued in the order export, polarity, enable, frequency.
\<close>

theorem PWM_init_busy_export:
  "PWM_init scripted 0 0 (PyInt 1000) (PyInt 50) False (world0 [Some (OSError 16)]) =
     (Inr \<lparr>chip = 0, pin = 0, frequency = PyInt 1000, duty_cycle_percent = PyInt 50,
            invert_polarity = False\<rparr>,
      \<lparr>gpio_warnings = True, mode = None, exports = [],
         trace = [Call (sysfs_PWM_Export 0 0) (Some (OSError 16)), Warn (Pin_already_in_use 0),
                  Call (sysfs_PWM_Unexport 0 0) None, Call (sysfs_PWM_Export 0 0) None],
         device = []\<rparr>)
   \<and> PWM_init scripted 0 0 (PyInt 1000) (PyInt 50) False (world0 []) =
     (Inr \<lparr>chip = 0, pin = 0, frequency = PyInt 1000, duty_cycle_percent = PyInt 50,
            invert_polarity = False\<rparr>,
      \<lparr>gpio_warnings = True, mode = None, exports = [],
         trace = [Call (sysfs_PWM_Export 0 0) None, Call (sysfs_PWM_Polarity 0 0 False) None,
                  Call (sysfs_PWM_Enable 0 0) None,
                  Call (sysfs_PWM_Frequency 0 0 (PyInt 1000)) None],
         device = []\<rparr>)"
  by (simp add: PWM_init_def PWM_init_try_def call_def warn_def scripted_def world0_def)

section \<open>Properties of the module-level functions\<close>

lemma call_fields [simp]:
  "exports (snd (call io c w)) = exports w"
  "mode (snd (call io c w)) = mode w"
  "gpio_warnings (snd (call io c w)) = gpio_warnings w"
  by (simp_all add: call_def split: prod.splits)

lemma call_eq:
  "call io c w = (r, w') \<Longrightarrow>
     exports w' = exports w \<and> mode w' = mode w \<and> gpio_warnings w' = gpio_warnings w
     \<and> trace w' = trace w @ [Call c r]"
  by (auto simp: call_def split: prod.splits)

lemma setup_export_fields:
  "setup_export io channel p w = (r, w') \<Longrightarrow>
     exports w' = exports w \<and> mode w' = mode w \<and> gpio_warnings w' = gpio_warnings w"
  by (auto simp: setup_export_def warn_def Let_def dest!: call_eq
           split: prod.splits option.splits ext_exception.splits if_splits)

text \<open>
  Claim C6. While \<^verbatim>\<open>_mode\<close> is \<open>None\<close>, \<^verbatim>\<open>setup\<close> raises "Mode has not been set" for every
  argument, a channel or a list, and changes nothing. And when \<^verbatim>\<open>setup(channel, direction)\<close>
  returns, \<^verbatim>\<open>_check_configured(channel, direction)\<close> on the resulting state passes.
\<close>

theorem setup_mode_and_configured:
  "(mode w = None \<longrightarrow>
      setup_gpio io tbl ch direction initial pull_up_down w = (Inl Mode_has_not_been_set, w))
   \<and> (setup_gpio io tbl (Chan channel) direction initial pull_up_down v = (Inr (), v') \<longrightarrow>
        check_configured v' channel (Some direction) = None)"
proof (intro conjI impI)
  assume "mode w = None"
  then show "setup_gpio io tbl ch direction initial pull_up_down w = (Inl Mode_has_not_been_set, w)"
    by (cases ch) simp_all
next
  assume "setup_gpio io tbl (Chan channel) direction initial pull_up_down v = (Inr (), v')"
  then have "map_of (exports v') channel = Some direction"
    by (auto simp: Let_def update_conv' split: if_splits sum.splits prod.splits option.splits
               direction.splits
             dest!: call_eq setup_export_fields)
  then show "check_configured v' channel (Some direction) = None"
    by (simp add: check_configured_def)
qed

theorem setup_mode_and_configured_witness:
  "setup_gpio scripted number_table (ChanList [Chan (ChanInt 11), Chan (ChanInt 12)]) OUT None None
     (world0 []) = (Inl Mode_has_not_been_set, world0 [])
   \<and> check_configured
        \<lparr>gpio_warnings = True, mode = Some BOARD, exports = [(ChanInt 12, OUT)],
           trace = [Call (sysfs_export 12) None, Call (sysfs_direction 12 OUT) None,
                    Call (sysfs_output 12 LOW) None],
           device = ([] :: ext_exception option list)\<rparr>
        (ChanInt 12) (Some OUT) = None"
proof -
  have m: "mode (world0 ([] :: ext_exception option list)) = None"
    by (simp add: world0_def)
  have run: "setup_gpio scripted number_table (Chan (ChanInt 12)) OUT (Some LOW) None
               ((world0 []) \<lparr>mode := Some BOARD\<rparr>) =
             (Inr (),
              \<lparr>gpio_warnings = True, mode = Some BOARD, exports = [(ChanInt 12, OUT)],
                 trace = [Call (sysfs_export 12) None, Call (sysfs_direction 12 OUT) None,
                          Call (sysfs_output 12 LOW) None],
                 device = []\<rparr>)"
    by (simp add: world0_def number_table_def setup_export_def call_def scripted_def)
  from setup_mode_and_configured
         [where io = scripted and tbl = number_table and w = "world0 []"
            and ch = "ChanList [Chan (ChanInt 11), Chan (ChanInt 12)]" and direction = OUT
            and initial = None and pull_up_down = None] m
  have A: "setup_gpio scripted number_table (ChanList [Chan (ChanInt 11), Chan (ChanInt 12)])
             OUT None None (world0 []) = (Inl Mode_has_not_been_set, world0 [])"
    by (simp del: setup_gpio.simps)
  from setup_mode_and_configured [THEN conjunct2, rule_format, OF run]
  show ?thesis using A by (simp del: setup_gpio.simps)
qed







lemma setup_for_in_order:
  "setup_for io tbl chs direction initial w =
     in_order_until_failure (\<lambda>ch. setup_gpio io tbl ch direction initial None) chs w"
  by (induction chs arbitrary: w)
     (simp_all del: setup_gpio.simps split: prod.splits sum.splits)

lemma output_for_in_order:
  "output_for io tbl chs state w =
     in_order_until_failure (\<lambda>ch. output_gpio io tbl ch state) chs w"
  by (induction chs arbitrary: w)
     (simp_all del: output_gpio.simps split: prod.splits sum.splits)

lemma cleanup_for_in_order:
  "cleanup_for io tbl chs w =
     in_order_until_failure (\<lambda>ch. cleanup_channel io tbl ch) chs w"
  by (induction chs arbitrary: w)
     (simp_all del: cleanup_channel.simps split: prod.splits sum.splits)

lemma cleanup_Some: "cleanup io tbl (Some ch) = cleanup_channel io tbl ch"
  by (rule ext) (simp add: cleanup_def)

lemma in_order_append:
  "in_order_until_failure f xs w = (Inr (), w1) \<Longrightarrow>
     in_order_until_failure f (xs @ ys) w = in_order_until_failure f ys w1"
  by (induction xs arbitrary: w) (auto split: prod.splits sum.splits)

text \<open>
  Claim C8. On a list of channels, \<^verbatim>\<open>setup\<close>, \<^verbatim>\<open>output\<close> and \<^verbatim>\<open>cleanup\<close> apply the same
  function to each member in the order given and stop at the first member that raises,
  with the state that the members before it and the failing member itself have produced.
  For \<^verbatim>\<open>setup\<close> the mode check and the pull-up/down warning come once, before the loop, and
  the members are set up without \<^verbatim>\<open>pull_up_down\<close>. The last conjunct spells out what
  stopping at the first failure means.
\<close>

theorem batch_in_order:
  "setup_gpio io tbl (ChanList chs) direction initial pull_up_down w =
     (if mode w = None then (Inl Mode_has_not_been_set, w)
      else in_order_until_failure (\<lambda>ch. setup_gpio io tbl ch direction initial None) chs
             (if pull_up_down \<noteq> None \<and> gpio_warnings w
              then warn Pull_up_down_not_supported w else w))
   \<and> output_gpio io tbl (ChanList chs) state w =
       in_order_until_failure (\<lambda>ch. output_gpio io tbl ch state) chs w
   \<and> cleanup io tbl (Some (ChanList chs)) w =
       in_order_until_failure (\<lambda>ch. cleanup io tbl (Some ch)) chs w
   \<and> (in_order_until_failure f xs v = (Inr (), v1) \<and> f y v1 = (Inl e, v2) \<longrightarrow>
        in_order_until_failure f (xs @ y # ys) v = (Inl e, v2))"
  by (auto simp: setup_for_in_order output_for_in_order cleanup_for_in_order cleanup_Some
                 Let_def in_order_append
           simp del: setup_gpio.simps(2) output_gpio.simps(2) cleanup_channel.simps(2))

theorem batch_in_order_witness:
  "setup_gpio scripted number_table
     (ChanList [Chan (ChanInt 1), Chan (ChanInt 1), Chan (ChanInt 2)]) OUT None None
     \<lparr>gpio_warnings = True, mode = Some BOARD, exports = [], trace = [], device = []\<rparr> =
   (Inl (Channel_is_already_configured (ChanInt 1)),
    \<lparr>gpio_warnings = True, mode = Some BOARD, exports = [(ChanInt 1, OUT)],
       trace = [Call (sysfs_export 1) None, Call (sysfs_direction 1 OUT) None],
       device = []\<rparr>)"
proof -
  let ?W = "\<lparr>gpio_warnings = True, mode = Some BOARD, exports = [], trace = [],
              device = ([] :: ext_exception option list)\<rparr>"
  let ?W1 = "\<lparr>gpio_warnings = True, mode = Some BOARD, exports = [(ChanInt 1, OUT)],
               trace = [Call (sysfs_export 1) None, Call (sysfs_direction 1 OUT) None],
               device = ([] :: ext_exception option list)\<rparr>"
  let ?f = "\<lambda>ch. setup_gpio scripted number_table ch OUT None None"
  have first: "in_order_until_failure ?f [Chan (ChanInt 1)] ?W = (Inr (), ?W1)"
    by (simp add: number_table_def setup_export_def call_def scripted_def)
  have second: "?f (Chan (ChanInt 1)) ?W1 = (Inl (Channel_is_already_configured (ChanInt 1)), ?W1)"
    by simp
  note t = batch_in_order [where io = scripted and tbl = number_table and direction = OUT
      and initial = None and pull_up_down = None and w = ?W
      and chs = "[Chan (ChanInt 1), Chan (ChanInt 1), Chan (ChanInt 2)]"
      and f = ?f and xs = "[Chan (ChanInt 1)]" and y = "Chan (ChanInt 1)"
      and ys = "[Chan (ChanInt 2)]" and v = ?W and ?v1.0 = ?W1 and ?v2.0 = ?W1
      and e = "Channel_is_already_configured (ChanInt 1)"]
  from t [THEN conjunct2, THEN conjunct2, THEN conjunct2] first second
  have "in_order_until_failure ?f [Chan (ChanInt 1), Chan (ChanInt 1), Chan (ChanInt 2)] ?W =
          (Inl (Channel_is_already_configured (ChanInt 1)), ?W1)"
    by (simp del: setup_gpio.simps in_order_until_failure.simps)
  with t [THEN conjunct1] show ?thesis
    by (simp del: setup_gpio.simps in_order_until_failure.simps)
qed

lemma check_configured_warn [simp]:
  "check_configured (warn m w) channel direction = check_configured w channel direction"
  by (simp add: check_configured_def warn_def)

text \<open>
  Claim C9, as the code has it. The value of \<^verbatim>\<open>bouncetime\<close> is never looked at: any two
  values give the same result. When warnings are off, or the channel is not configured as
  an input, a call with \<^verbatim>\<open>bouncetime\<close> is the call without it. When warnings are on and the
  channel is an input, it is the call without \<^verbatim>\<open>bouncetime\<close> after one warning. The call
  into the event module has no bounce interval among its arguments.
\<close>

theorem bouncetime_only_warns:
  "add_event_detect io tbl channel trig cb (Some b) w =
     add_event_detect io tbl channel trig cb (Some b') w
   \<and> add_event_callback io tbl channel cb (Some b) w =
       add_event_callback io tbl channel cb (Some b') w
   \<and> (\<not> gpio_warnings w \<or> check_configured w channel (Some IN) \<noteq> None \<longrightarrow>
        add_event_detect io tbl channel trig cb (Some b) w =
          add_event_detect io tbl channel trig cb None w
        \<and> add_event_callback io tbl channel cb (Some b) w =
            add_event_callback io tbl channel cb None w)
   \<and> (gpio_warnings w \<and> check_configured w channel (Some IN) = None \<longrightarrow>
        add_event_detect io tbl channel trig cb (Some b) w =
          add_event_detect io tbl channel trig cb None (warn Bouncetime_not_supported w)
        \<and> add_event_callback io tbl channel cb (Some b) w =
            add_event_callback io tbl channel cb None (warn Bouncetime_not_supported w))"
  by (auto simp: add_event_detect_def add_event_callback_def Let_def warn_def
                 check_configured_def call_def
           split: option.splits sum.splits prod.splits)

theorem bouncetime_only_warns_witness:
  "add_event_detect scripted number_table (ChanInt 7) RISING (Some 1) (Some 200)
     \<lparr>gpio_warnings = True, mode = Some BOARD, exports = [(ChanInt 7, IN)], trace = [],
        device = []\<rparr> =
   (Inr (),
    \<lparr>gpio_warnings = True, mode = Some BOARD, exports = [(ChanInt 7, IN)],
       trace = [Warn Bouncetime_not_supported,
                Call (event_add_edge_detect 7 RISING (Some (1, ChanInt 7))) None],
       device = []\<rparr>)
   \<and> add_event_callback scripted number_table (ChanInt 7) (Some 1) (Some 200)
     \<lparr>gpio_warnings = False, mode = Some BOARD, exports = [(ChanInt 7, IN)], trace = [],
        device = []\<rparr> =
   (Inr (),
    \<lparr>gpio_warnings = False, mode = Some BOARD, exports = [(ChanInt 7, IN)],
       trace = [Call (event_add_edge_callback 7 (Some (1, ChanInt 7))) None],
       device = []\<rparr>)"
proof -
  let ?on = "\<lparr>gpio_warnings = True, mode = Some BOARD, exports = [(ChanInt 7, IN)],
               trace = [], device = ([] :: ext_exception option list)\<rparr>"
  let ?off = "\<lparr>gpio_warnings = False, mode = Some BOARD, exports = [(ChanInt 7, IN)],
                trace = [], device = ([] :: ext_exception option list)\<rparr>"
  have c: "check_configured ?on (ChanInt 7) (Some IN) = None"
    by (simp add: check_configured_def)
  have 1: "add_event_detect scripted number_table (ChanInt 7) RISING (Some 1) None
             (warn Bouncetime_not_supported ?on) =
           (Inr (),
            \<lparr>gpio_warnings = True, mode = Some BOARD, exports = [(ChanInt 7, IN)],
               trace = [Warn Bouncetime_not_supported,
                        Call (event_add_edge_detect 7 RISING (Some (1, ChanInt 7))) None],
               device = []\<rparr>)"
    by (simp add: add_event_detect_def check_configured_def warn_def number_table_def
                  call_def scripted_def wrap_def)
  have 2: "add_event_callback scripted number_table (ChanInt 7) (Some 1) None ?off =
           (Inr (),
            \<lparr>gpio_warnings = False, mode = Some BOARD, exports = [(ChanInt 7, IN)],
               trace = [Call (event_add_edge_callback 7 (Some (1, ChanInt 7))) None],
               device = []\<rparr>)"
    by (simp add: add_event_callback_def check_configured_def number_table_def
                  call_def scripted_def wrap_def)
  from bouncetime_only_warns
         [where io = scripted and tbl = number_table and channel = "ChanInt 7"
            and trig = RISING and cb = "Some 1" and b = 200 and b' = 200 and w = ?on] c 1
       bouncetime_only_warns
         [where io = scripted and tbl = number_table and channel = "ChanInt 7"
            and trig = RISING and cb = "Some 1" and b = 200 and b' = 200 and w = ?off] 2
  show ?thesis by simp
qed

text \<open>
  Claim C9 as stated says that the bounce interval is recorded, validated to be
  non-negative and answered with an advisory. With warnings switched off,
  \<^verbatim>\<open>add_event_detect(7, RISING, bouncetime=-5)\<close> on an input channel returns normally, emits
  no warning, and leaves no trace of the value in the state or in the call to the event
  module.
\<close>

theorem bouncetime_negative_counterexample:
  "add_event_detect scripted number_table (ChanInt 7) RISING None (Some (- 5))
     \<lparr>gpio_warnings = False, mode = Some BOARD, exports = [(ChanInt 7, IN)], trace = [],
        device = []\<rparr> =
   (Inr (),
    \<lparr>gpio_warnings = False, mode = Some BOARD, exports = [(ChanInt 7, IN)],
       trace = [Call (event_add_edge_detect 7 RISING None) None],
       device = []\<rparr>)"
  by (simp add: add_event_detect_def check_configured_def number_table_def
                call_def scripted_def wrap_def)

end
